theory Spec2Isabelle
  imports Complex_Main
begin

section \<open>Strings and numbers of the source language\<close>

text \<open>
  A TypeScript string is a sequence of UTF-16 code units. A code unit is modelled as a
  natural number, a string as a list of them; \<open>js\<close> embeds an ASCII literal.
  Word counts are array lengths and sums of them: natural numbers. Differences of word
  counts are integers. The numbers of the language are floating-point numbers: they are
  exact on integers below \<open>2^53\<close> and print as plain decimals there. \<open>digits_of\<close> and
  \<open>parseInt\<close> below are the printing and the reading of that range; what the language
  does with greater values (rounding, the exponent form from \<open>10^21\<close>) is outside the
  model, and the statements about numbers are made below \<open>2^53\<close>.
\<close>

type_synonym jsstring = "nat list"

definition js :: "string \<Rightarrow> jsstring" where
  "js s = map of_char s"

text \<open>
  The class \<open>\s\<close> of a regular expression without the unicode flag: the white space and
  line terminator code points of the language.
\<close>

definition is_space :: "nat \<Rightarrow> bool" where
  "is_space c \<longleftrightarrow>
     c = 9 \<or> c = 10 \<or> c = 11 \<or> c = 12 \<or> c = 13 \<or> c = 32 \<or> c = 160 \<or> c = 5760 \<or>
     (8192 \<le> c \<and> c \<le> 8202) \<or> c = 8232 \<or> c = 8233 \<or> c = 8239 \<or> c = 8287 \<or>
     c = 12288 \<or> c = 65279"

text \<open>The class \<open>\d\<close>: the ten ASCII digits.\<close>

definition is_digit :: "nat \<Rightarrow> bool" where
  "is_digit c \<longleftrightarrow> 48 \<le> c \<and> c \<le> 57"

text \<open>
  A number inside a template literal: the decimal digits of a natural number, and a
  leading minus sign for a negative integer.
\<close>

function digits_of :: "nat \<Rightarrow> jsstring" where
  "digits_of n = (if n < 10 then [48 + n] else digits_of (n div 10) @ [48 + n mod 10])"
  by pat_completeness auto

termination
  by (relation "measure id") auto

declare digits_of.simps [simp del]

definition show_int :: "int \<Rightarrow> jsstring" where
  "show_int i = (if i < 0 then 45 # digits_of (nat (- i)) else digits_of (nat i))"

text \<open>\<open>parseInt(ds, 10)\<close> on a string of decimal digits.\<close>

definition parseInt :: "jsstring \<Rightarrow> nat" where
  "parseInt ds = foldl (\<lambda>acc d. 10 * acc + (d - 48)) 0 ds"

text \<open>
  \<open>s.split(sep)\<close> for a separator of one code unit: the pieces between the occurrences
  of the separator; there is always at least one piece.
\<close>

fun split_on :: "nat \<Rightarrow> jsstring \<Rightarrow> jsstring list" where
  "split_on sep [] = [[]]"
| "split_on sep (c # cs) =
     (if c = sep then [] # split_on sep cs
      else (case split_on sep cs of
              [] \<Rightarrow> [[c]]
            | p # ps \<Rightarrow> (c # p) # ps))"

text \<open>\<open>s.endsWith(suffix)\<close>.\<close>

definition endsWith :: "jsstring \<Rightarrow> jsstring \<Rightarrow> bool" where
  "endsWith s suffix \<longleftrightarrow>
     length suffix \<le> length s \<and> drop (length s - length suffix) s = suffix"

text \<open>\<open>s.startsWith(prefix)\<close>, and \<open>lines.join(sep)\<close> for a separator of one code unit.\<close>

definition starts_with :: "jsstring \<Rightarrow> jsstring \<Rightarrow> bool" where
  "starts_with prefix s \<longleftrightarrow> take (length prefix) s = prefix"

fun join_with :: "nat \<Rightarrow> jsstring list \<Rightarrow> jsstring" where
  "join_with sep [] = []"
| "join_with sep [l] = l"
| "join_with sep (l # m # ls) = l @ sep # join_with sep (m # ls)"

text \<open>
  \<open>s.split(sep)\<close> for a separator string that is not empty: \<open>split_go\<close> scans the
  text with the current piece in \<open>tok\<close>, latest first, and \<open>skip\<close> code units of a
  separator still to pass. \<open>s.trim()\<close> removes white space at both ends.
\<close>

fun split_go :: "jsstring \<Rightarrow> nat \<Rightarrow> jsstring \<Rightarrow> jsstring \<Rightarrow> jsstring list" where
  "split_go sep skip tok [] = [rev tok]"
| "split_go sep (Suc k) tok (c # cs) = split_go sep k tok cs"
| "split_go sep 0 tok (c # cs) =
     (if starts_with sep (c # cs) then rev tok # split_go sep (length sep - 1) [] cs
      else split_go sep 0 (c # tok) cs)"

definition split_str :: "jsstring \<Rightarrow> jsstring \<Rightarrow> jsstring list" where
  "split_str sep s = split_go sep 0 [] s"

definition trim :: "jsstring \<Rightarrow> jsstring" where
  "trim s = rev (dropWhile is_space (rev (dropWhile is_space s)))"

section \<open>Word-count extractor\<close>

text \<open>
  \<open>content.split(/\s+/)\<close>: the pieces of the string between the maximal runs of white
  space, in order. A run at the start or at the end of the string leaves an empty piece
  before or after it, and the empty string splits into one empty piece.
  \<open>split_from tok s\<close> scans \<open>s\<close> with the code units of the current piece in \<open>tok\<close>,
  latest first.
\<close>

function split_from :: "jsstring \<Rightarrow> jsstring \<Rightarrow> jsstring list" where
  "split_from tok [] = [rev tok]"
| "split_from tok (c # cs) =
     (if is_space c then rev tok # split_from [] (dropWhile is_space cs)
      else split_from (c # tok) cs)"
  by pat_completeness auto

termination
proof (relation "measure (\<lambda>(tok, s). length s)")
  show "wf (measure (\<lambda>(tok, s). length s))" by simp
next
  fix tok :: jsstring and c :: nat and cs :: jsstring
  have "length (dropWhile is_space cs) \<le> length cs" by (rule length_dropWhile_le)
  then show "(([], dropWhile is_space cs), (tok, c # cs)) \<in> measure (\<lambda>(tok, s). length s)"
    by simp
next
  fix tok :: jsstring and c :: nat and cs :: jsstring
  show "((c # tok, cs), (tok, c # cs)) \<in> measure (\<lambda>(tok, s). length s)" by simp
qed

definition split_ws :: "jsstring \<Rightarrow> jsstring list" where
  "split_ws s = split_from [] s"

text \<open>
  \<open>content.split(/\s+/).filter(word => word.length > 0).length\<close>, the body of
  \<open>getWordCount\<close> once the file is read.
\<close>

definition countWords :: "jsstring \<Rightarrow> nat" where
  "countWords content = length (filter (\<lambda>word. length word > 0) (split_ws content))"

text \<open>
  The specification's wording of the same count: the tokens of a text are its maximal
  runs of non-white-space code units.
\<close>

function tokens_spec :: "jsstring \<Rightarrow> jsstring list" where
  "tokens_spec s =
     (case dropWhile is_space s of
        [] \<Rightarrow> []
      | c # cs \<Rightarrow> takeWhile (\<lambda>x. \<not> is_space x) (c # cs)
                 # tokens_spec (dropWhile (\<lambda>x. \<not> is_space x) cs))"
  by pat_completeness auto

termination
proof (relation "measure length")
  show "wf (measure length)" by simp
next
  fix s :: jsstring and c :: nat and cs :: jsstring
  assume eq: "dropWhile is_space s = c # cs"
  have "length (dropWhile (\<lambda>x. \<not> is_space x) cs) \<le> length cs"
    by (rule length_dropWhile_le)
  moreover have "length (c # cs) \<le> length s"
    using length_dropWhile_le [of is_space s] eq by simp
  ultimately show "(dropWhile (\<lambda>x. \<not> is_space x) cs, s) \<in> measure length" by simp
qed

declare tokens_spec.simps [simp del]

section \<open>Commit-message codec\<close>

text \<open>
  The two encodings: \<open>commitChapter\<close> builds its default message with the chapter's
  word count, \<open>commitAll\<close> appends the project's word count to the message it is given.
\<close>

definition defaultMessage :: "jsstring \<Rightarrow> nat \<Rightarrow> jsstring" where
  "defaultMessage chapterPath wordCount =
     js ''Update '' @ chapterPath @ js '' ('' @ digits_of wordCount @ js '' words)''"

definition enhancedMessage :: "jsstring \<Rightarrow> nat \<Rightarrow> jsstring" where
  "enhancedMessage message totalWordCount =
     message @ js '' ('' @ digits_of totalWordCount @ js '' total words)''"

text \<open>
  Decoding is \<open>message.match(/\((\d+)\s+(?:total\s+)?words?\)/)\<close> followed by
  \<open>parseInt\<close> of the captured digits. The expression is matched piece by piece, each
  function below taking the text that remains and the number captured so far. No piece
  needs to give back what it consumed: the code unit that has to follow a run of digits
  or of white space is never a digit or a white space itself, the text after a consumed
  \<open>total\<close> cannot start with \<open>w\<close>, and the text after a consumed \<open>s\<close> cannot be
  the parenthesis the shorter match would need.
\<close>

fun strip_prefix :: "jsstring \<Rightarrow> jsstring \<Rightarrow> jsstring option" where
  "strip_prefix [] s = Some s"
| "strip_prefix (p # ps) [] = None"
| "strip_prefix (p # ps) (c # cs) = (if p = c then strip_prefix ps cs else None)"

text \<open>The closing \<open>\)\<close>.\<close>

definition match_close :: "nat \<Rightarrow> jsstring \<Rightarrow> nat option" where
  "match_close n s = (case s of [] \<Rightarrow> None | c # _ \<Rightarrow> if c = 41 then Some n else None)"

text \<open>\<open>words?\<close> and then the closing parenthesis.\<close>

definition match_words :: "nat \<Rightarrow> jsstring \<Rightarrow> nat option" where
  "match_words n s =
     (case strip_prefix (js ''word'') s of
        None \<Rightarrow> None
      | Some r \<Rightarrow> (case r of
                     [] \<Rightarrow> None
                   | c # cs \<Rightarrow> if c = 115 then match_close n cs else match_close n r))"

text \<open>The optional group \<open>(?:total\s+)?\<close> and then the rest.\<close>

definition match_total :: "nat \<Rightarrow> jsstring \<Rightarrow> nat option" where
  "match_total n s =
     (case strip_prefix (js ''total'') s of
        None \<Rightarrow> match_words n s
      | Some r \<Rightarrow> (case r of
                     [] \<Rightarrow> match_words n s
                   | c # cs \<Rightarrow> if is_space c then match_words n (dropWhile is_space cs)
                               else match_words n s))"

text \<open>\<open>\s+\<close> and then the rest.\<close>

definition match_spaces :: "nat \<Rightarrow> jsstring \<Rightarrow> nat option" where
  "match_spaces n s =
     (case s of
        [] \<Rightarrow> None
      | c # cs \<Rightarrow> if is_space c then match_total n (dropWhile is_space cs) else None)"

text \<open>The whole expression, anchored at the start of the text: \<open>\(\<close>, \<open>(\d+)\<close>, the rest.\<close>

definition match_here :: "jsstring \<Rightarrow> nat option" where
  "match_here s =
     (case s of
        [] \<Rightarrow> None
      | c # cs \<Rightarrow>
          if c = 40 then
            (case takeWhile is_digit cs of
               [] \<Rightarrow> None
             | d # ds \<Rightarrow> match_spaces (parseInt (d # ds)) (dropWhile is_digit cs))
          else None)"

text \<open>
  \<open>match\<close> returns the leftmost match; \<open>None\<close> stands for \<open>undefined\<close>, the result
  when nothing matches.
\<close>

fun extractWordCountFromMessage :: "jsstring \<Rightarrow> nat option" where
  "extractWordCountFromMessage [] = None"
| "extractWordCountFromMessage (c # cs) =
     (case match_here (c # cs) of
        Some n \<Rightarrow> Some n
      | None \<Rightarrow> extractWordCountFromMessage cs)"

text \<open>
  The specification's wording of the pattern: a parenthesis, a number, white space, the
  word \<open>total\<close> and white space or nothing, the token \<open>word\<close> or \<open>words\<close>, and the
  closing parenthesis. \<open>count_pattern w\<close> says that the text \<open>w\<close> as a whole has this
  form.
\<close>

definition count_pattern :: "jsstring \<Rightarrow> bool" where
  "count_pattern w \<longleftrightarrow>
     (\<exists>ds sp mid opt_s.
        w = 40 # ds @ sp @ mid @ js ''word'' @ opt_s @ [41]
        \<and> ds \<noteq> [] \<and> list_all is_digit ds
        \<and> sp \<noteq> [] \<and> list_all is_space sp
        \<and> (mid = [] \<or> (\<exists>sp2. mid = js ''total'' @ sp2 \<and> sp2 \<noteq> [] \<and> list_all is_space sp2))
        \<and> (opt_s = [] \<or> opt_s = [115]))"

section \<open>The version-control engine\<close>

text \<open>
  The service reaches the repository only through the calls of its \<open>git\<close> handle. The
  engine is an external collaborator; this section models the state it keeps and the
  commands the service issues, after the documented behaviour of the commands:
  \<open>status\<close>, \<open>add\<close>, \<open>commit\<close>, \<open>tag\<close>, \<open>checkout\<close>, \<open>checkout -b\<close> and \<open>log\<close>.
  Merges, remotes, ignore files, wild cards in path arguments and the rules for
  well-formed reference names are outside the model; a file is readable exactly when it
  exists.

  A tree maps the paths of files to their contents, as an association list. A commit is
  an immutable value that holds its parent.
\<close>

type_synonym tree = "(jsstring \<times> jsstring) list"

text \<open>
  A path argument names a file, or a directory and with it every file below it; \<open>.\<close>
  is the project directory. In a path argument \<open>*\<close> stands for any run of characters,
  \<open>/\<close> included, and \<open>?\<close> for any one character. The bracket expressions and the
  escapes of the engine's patterns are outside the model: the statements below use
  arguments without \<open>[\<close> and without a backslash.
\<close>

fun wildmatch :: "jsstring \<Rightarrow> jsstring \<Rightarrow> bool" where
  "wildmatch [] [] = True"
| "wildmatch [] (c # cs) = False"
| "wildmatch (p # ps) [] = (p = 42 \<and> wildmatch ps [])"
| "wildmatch (p # ps) (c # cs) =
     (if p = 42 then wildmatch ps (c # cs) \<or> wildmatch (p # ps) cs
      else if p = 63 then wildmatch ps cs
      else p = c \<and> wildmatch ps cs)"

definition pathspec_matches :: "jsstring \<Rightarrow> jsstring \<Rightarrow> bool" where
  "pathspec_matches spec path \<longleftrightarrow>
     spec = js ''.'' \<or> wildmatch spec path \<or> starts_with (spec @ [47]) path
     \<or> (spec \<noteq> [] \<and> last spec = 47 \<and> starts_with spec path)"

definition same_tree :: "tree \<Rightarrow> tree \<Rightarrow> bool" where
  "same_tree a b \<longleftrightarrow> list_all (\<lambda>p. map_of a p = map_of b p) (map fst a @ map fst b)"

datatype commit =
  Commit (c_hash: jsstring) (c_author: jsstring) (c_date: jsstring) (c_message: jsstring)
         (c_tree: tree) (c_parent: "commit option")

datatype head_ref = OnBranch jsstring | Detached commit

record repo =
  objects :: "commit list"
  branches :: "jsstring \<rightharpoonup> commit"
  tags :: "jsstring \<rightharpoonup> commit"
  HEAD :: head_ref
  index :: tree
  worktree :: tree
  user_name :: jsstring
  clock :: jsstring

text \<open>
  \<open>objects\<close> lists every commit ever created, oldest first; \<open>index\<close> is the staging
  area and \<open>worktree\<close> the files of the project directory; \<open>user_name\<close> and \<open>clock\<close>
  are the identity and the time the engine stamps on a new commit.
\<close>

datatype git_failure =
  PathspecNoMatch jsstring
| TagExists jsstring
| BranchExists jsstring
| NoCommitsYet
| LocalChangesOverwritten
| EmptyMessage

datatype error = GitError git_failure | TypeError | RangeError

text \<open>
  An asynchronous method of the service is a function from the state of the repository
  to a result, an error for a rejected promise, and the state it leaves. \<open>await\<close>
  sequences two of them: an error ends the method with the state reached so far.
\<close>

type_synonym 'a outcome = "(error + 'a) \<times> repo"

definition await :: "(repo \<Rightarrow> 'a outcome) \<Rightarrow> ('a \<Rightarrow> repo \<Rightarrow> 'b outcome) \<Rightarrow> repo \<Rightarrow> 'b outcome" where
  "await m f r = (case m r of (Inl e, r') \<Rightarrow> (Inl e, r') | (Inr x, r') \<Rightarrow> f x r')"

definition return_ok :: "'a \<Rightarrow> repo \<Rightarrow> 'a outcome" where
  "return_ok x r = (Inr x, r)"

definition head_commit :: "repo \<Rightarrow> commit option" where
  "head_commit r = (case HEAD r of OnBranch b \<Rightarrow> branches r b | Detached c \<Rightarrow> Some c)"

definition head_tree :: "repo \<Rightarrow> tree" where
  "head_tree r = (case head_commit r of None \<Rightarrow> [] | Some c \<Rightarrow> c_tree c)"

text \<open>
  \<open>git.status()\<close>, reduced to the paths of \<open>status.files\<close>: every path whose staged
  content differs from the last commit or whose file differs from the staged content
  (modified, added, deleted and untracked files).
\<close>

definition status_files :: "repo \<Rightarrow> jsstring list" where
  "status_files r =
     filter (\<lambda>p. map_of (index r) p \<noteq> map_of (head_tree r) p
                \<or> map_of (worktree r) p \<noteq> map_of (index r) p)
       (remdups (map fst (head_tree r) @ map fst (index r) @ map fst (worktree r)))"

definition git_status :: "repo \<Rightarrow> jsstring list outcome" where
  "git_status r = (Inr (status_files r), r)"

text \<open>
  \<open>git.add(path)\<close>: \<open>.\<close> stages the whole working tree. Any other path stages the
  files of the working tree that it matches, and stages as deleted the staged files that
  it matches and that are gone; a path that matches no file of either is an error.
\<close>

definition git_add :: "jsstring \<Rightarrow> repo \<Rightarrow> unit outcome" where
  "git_add p r =
     (if p = js ''.'' then (Inr (), r\<lparr>index := worktree r\<rparr>)
      else if list_ex (\<lambda>e. pathspec_matches p (fst e)) (worktree r @ index r) then
        (Inr (), r\<lparr>index := filter (\<lambda>e. pathspec_matches p (fst e)) (worktree r)
                                @ filter (\<lambda>e. \<not> pathspec_matches p (fst e)) (index r)\<rparr>)
      else (Inl (GitError (PathspecNoMatch p)), r))"

text \<open>
  The engine cleans a message before it stores it: white space at the end of every
  line goes, and so do empty lines at the start and at the end and all but one of
  several empty lines in a row. White space is here the tab, the line feed, the carriage
  return and the space. The line feed that ends a stored message is left out of
  \<open>c_message\<close>.
\<close>

definition git_space :: "nat \<Rightarrow> bool" where
  "git_space c \<longleftrightarrow> c = 9 \<or> c = 10 \<or> c = 13 \<or> c = 32"

definition rstrip :: "jsstring \<Rightarrow> jsstring" where
  "rstrip l = rev (dropWhile git_space (rev l))"

fun stripspace_lines :: "nat \<Rightarrow> bool \<Rightarrow> jsstring list \<Rightarrow> jsstring list" where
  "stripspace_lines empties started [] = []"
| "stripspace_lines empties started (l # ls) =
     (if rstrip l \<noteq> [] then
        (if empties > 0 \<and> started then [[]] else [])
        @ rstrip l # stripspace_lines 0 True ls
      else stripspace_lines (Suc empties) started ls)"

definition cleanup_message :: "jsstring \<Rightarrow> jsstring" where
  "cleanup_message msg = join_with 10 (stripspace_lines 0 False (split_on 10 msg))"

text \<open>
  The subject of a stored message, \<open>%s\<close> in a log format: its lines up to the first
  empty one, joined by spaces.
\<close>

definition subject_of :: "jsstring \<Rightarrow> jsstring" where
  "subject_of m = join_with 32 (takeWhile (\<lambda>l. l \<noteq> []) (split_on 10 m))"

text \<open>
  \<open>git.commit(message)\<close>, returning \<open>result.commit\<close>. With nothing staged the engine
  reports so on its standard output and the handle resolves with an empty commit name;
  nothing is thrown and nothing changes. A message that is empty once cleaned aborts the
  commit. Otherwise the staged tree becomes a new commit on top of the current one, and
  the current branch (or the detached head) moves to it.
\<close>

definition git_commit :: "jsstring \<Rightarrow> repo \<Rightarrow> jsstring outcome" where
  "git_commit msg r =
     (if same_tree (index r) (head_tree r) then (Inr [], r)
      else if cleanup_message msg = [] then (Inl (GitError EmptyMessage), r)
      else
        (let c = Commit (digits_of (length (objects r))) (user_name r) (clock r)
                   (cleanup_message msg) (index r) (head_commit r)
         in (Inr (c_hash c),
             (case HEAD r of
                OnBranch b \<Rightarrow> r\<lparr>objects := objects r @ [c], branches := (branches r)(b \<mapsto> c)\<rparr>
              | Detached _ \<Rightarrow> r\<lparr>objects := objects r @ [c], HEAD := Detached c\<rparr>))))"

text \<open>\<open>git.addTag(name)\<close>: a new tag at the current commit; an existing name is an error.\<close>

definition git_addTag :: "jsstring \<Rightarrow> repo \<Rightarrow> unit outcome" where
  "git_addTag name r =
     (case tags r name of
        Some _ \<Rightarrow> (Inl (GitError (TagExists name)), r)
      | None \<Rightarrow>
          (case head_commit r of
             None \<Rightarrow> (Inl (GitError NoCommitsYet), r)
           | Some c \<Rightarrow> (Inr (), r\<lparr>tags := (tags r)(name \<mapsto> c)\<rparr>)))"

text \<open>
  A name given to \<open>checkout\<close> is looked up as a branch first, then as a tag, then as the
  name of a commit. A branch becomes the current branch; a tag or a commit detaches the
  head.
\<close>

definition resolve_ref :: "repo \<Rightarrow> jsstring \<Rightarrow> (commit \<times> head_ref) option" where
  "resolve_ref r name =
     (case branches r name of
        Some c \<Rightarrow> Some (c, OnBranch name)
      | None \<Rightarrow>
          (case tags r name of
             Some c \<Rightarrow> Some (c, Detached c)
           | None \<Rightarrow>
               (case find (\<lambda>c. c_hash c = name) (objects r) of
                  Some c \<Rightarrow> Some (c, Detached c)
                | None \<Rightarrow> None)))"

text \<open>
  Switching from the tree \<open>old\<close> to the tree \<open>target\<close> replaces the paths on which the
  two differ and keeps local content elsewhere; it is refused when a path to be replaced
  carries a local change.
\<close>

definition switch_tree :: "tree \<Rightarrow> tree \<Rightarrow> tree \<Rightarrow> tree" where
  "switch_tree old target local =
     List.map_filter
       (\<lambda>p. map_option (Pair p)
              (if map_of old p \<noteq> map_of target p then map_of target p else map_of local p))
       (remdups (map fst target @ map fst local))"

definition switch_conflict :: "repo \<Rightarrow> tree \<Rightarrow> bool" where
  "switch_conflict r target \<longleftrightarrow>
     list_ex (\<lambda>p. map_of (head_tree r) p \<noteq> map_of target p
                 \<and> (map_of (index r) p \<noteq> map_of (head_tree r) p
                    \<or> map_of (worktree r) p \<noteq> map_of (head_tree r) p))
       (map fst (head_tree r) @ map fst target)"

text \<open>
  \<open>git.checkout(name)\<close>. A name that resolves to a commit switches to it. A name
  that resolves to nothing is taken as a path: the staged files that it matches are
  written back to the working tree, and the head stays where it is; a name that matches
  no staged file either is an error.
\<close>

definition git_checkout :: "jsstring \<Rightarrow> repo \<Rightarrow> unit outcome" where
  "git_checkout name r =
     (case resolve_ref r name of
        None \<Rightarrow>
          if list_ex (\<lambda>e. pathspec_matches name (fst e)) (index r) then
            (Inr (), r\<lparr>worktree := filter (\<lambda>e. pathspec_matches name (fst e)) (index r)
                                      @ filter (\<lambda>e. \<not> pathspec_matches name (fst e)) (worktree r)\<rparr>)
          else (Inl (GitError (PathspecNoMatch name)), r)
      | Some (c, h) \<Rightarrow>
          if switch_conflict r (c_tree c) then (Inl (GitError LocalChangesOverwritten), r)
          else (Inr (), r\<lparr>HEAD := h,
                            index := switch_tree (head_tree r) (c_tree c) (index r),
                            worktree := switch_tree (head_tree r) (c_tree c) (worktree r)\<rparr>))"

text \<open>
  \<open>git.checkoutLocalBranch(name)\<close>, that is \<open>checkout -b\<close>: a new branch at the
  current commit becomes the current branch; an existing name is an error.
\<close>

definition git_checkoutLocalBranch :: "jsstring \<Rightarrow> repo \<Rightarrow> unit outcome" where
  "git_checkoutLocalBranch name r =
     (case branches r name of
        Some _ \<Rightarrow> (Inl (GitError (BranchExists name)), r)
      | None \<Rightarrow>
          (case head_commit r of
             None \<Rightarrow> (Inr (), r\<lparr>HEAD := OnBranch name\<rparr>)
           | Some c \<Rightarrow> (Inr (), r\<lparr>branches := (branches r)(name \<mapsto> c), HEAD := OnBranch name\<rparr>)))"

text \<open>
  The commits that a log lists: the current commit and its ancestors, newest first.
\<close>

fun history_of :: "commit \<Rightarrow> commit list" where
  "history_of (Commit h a d m t p) =
     Commit h a d m t p # (case p of None \<Rightarrow> [] | Some q \<Rightarrow> history_of q)"

text \<open>
  What the engine prints for a list of commits: with \<open>--oneline\<close> a line of the name and
  the subject of each commit, with \<open>--pretty=format:%h|%ai|%s\<close> a line of the name, the
  date and the subject separated by bars. The lines are separated by line feeds.
\<close>

definition oneline_text :: "commit list \<Rightarrow> jsstring" where
  "oneline_text cs = join_with 10 (map (\<lambda>c. c_hash c @ 32 # subject_of (c_message c)) cs)"

definition format_text :: "commit list \<Rightarrow> jsstring" where
  "format_text cs =
     join_with 10 (map (\<lambda>c. c_hash c @ 124 # c_date c @ 124 # subject_of (c_message c)) cs)"

text \<open>
  \<open>git.log(options)\<close> of the handle asks the engine for a format of its own, in which
  every commit starts with \<open>START_BOUNDARY\<close>, ends with \<open>COMMIT_BOUNDARY\<close> and has its
  fields separated by \<open>SPLITTER\<close>, and cuts the answer at these marks into the entries of
  \<open>log.all\<close>. The options of the caller come after the format of the handle, and a
  format among them replaces it: the answer then carries no marks, and the whole of it,
  if it is not blank, becomes the \<open>hash\<close> of one single entry whose other fields are
  empty.
\<close>

definition START_BOUNDARY :: jsstring where
  "START_BOUNDARY = [242, 242, 242, 242, 242, 242, 32]"

definition COMMIT_BOUNDARY :: jsstring where
  "COMMIT_BOUNDARY = [32, 242, 242]"

definition SPLITTER :: jsstring where
  "SPLITTER = [32, 242, 32]"

record log_line =
  log_hash :: jsstring
  log_date :: jsstring
  log_message :: jsstring
  log_refs :: jsstring
  log_body :: jsstring
  log_author_name :: jsstring
  log_author_email :: jsstring

text \<open>\<open>tokens[index] || ''\<close>.\<close>

definition field_at :: "jsstring list \<Rightarrow> nat \<Rightarrow> jsstring" where
  "field_at tokens i = (if i < length tokens then tokens ! i else [])"

definition build_line :: "jsstring \<Rightarrow> log_line" where
  "build_line item =
     (let lineDetail = split_str COMMIT_BOUNDARY item;
          tokens = split_str SPLITTER (field_at lineDetail 0)
      in \<lparr>log_hash = field_at tokens 0, log_date = field_at tokens 1,
          log_message = field_at tokens 2, log_refs = field_at tokens 3,
          log_body = field_at tokens 4, log_author_name = field_at tokens 5,
          log_author_email = field_at tokens 6\<rparr>)"

definition parse_log :: "jsstring \<Rightarrow> log_line list" where
  "parse_log stdOut =
     map build_line (filter (\<lambda>item. item \<noteq> []) (split_str START_BOUNDARY (trim stdOut)))"

text \<open>
  \<open>git.log(['-n', String(limit), '--oneline'])\<close>: the engine prints the first \<open>limit\<close>
  commits in the one-line format, and the handle parses what it gets.
\<close>

definition git_log_oneline :: "nat \<Rightarrow> repo \<Rightarrow> log_line list outcome" where
  "git_log_oneline limit r =
     (case head_commit r of
        None \<Rightarrow> (Inl (GitError NoCommitsYet), r)
      | Some c \<Rightarrow> (Inr (parse_log (oneline_text (take limit (history_of c)))), r))"

section \<open>The manuscript service\<close>

text \<open>
  \<open>message || defaultMessage\<close>: an absent message and the empty string are both falsy.
\<close>

definition message_or :: "jsstring option \<Rightarrow> jsstring \<Rightarrow> jsstring" where
  "message_or message fallback =
     (case message of None \<Rightarrow> fallback | Some m \<Rightarrow> if m = [] then fallback else m)"

text \<open>
  \<open>getWordCount\<close>: the word count of the file's content, and \<open>0\<close> when reading the
  file throws.
\<close>

definition getWordCount :: "jsstring \<Rightarrow> repo \<Rightarrow> nat outcome" where
  "getWordCount filePath r =
     (case map_of (worktree r) filePath of
        Some content \<Rightarrow> (Inr (countWords content), r)
      | None \<Rightarrow> (Inr 0, r))"

text \<open>
  \<open>getTotalWordCount\<close>: the loop over the paths of \<open>status.files\<close>, adding the word
  count of each path with a writing extension.
\<close>

fun total_loop :: "jsstring list \<Rightarrow> nat \<Rightarrow> repo \<Rightarrow> nat outcome" where
  "total_loop [] tot = return_ok tot"
| "total_loop (file # files) tot =
     (if endsWith file (js ''.md'') \<or> endsWith file (js ''.txt'')
         \<or> endsWith file (js ''.fountain'')
      then await (getWordCount file) (\<lambda>n. total_loop files (tot + n))
      else total_loop files tot)"

definition getTotalWordCount :: "repo \<Rightarrow> nat outcome" where
  "getTotalWordCount = await git_status (\<lambda>files. total_loop files 0)"

definition commitChapter :: "jsstring \<Rightarrow> jsstring option \<Rightarrow> repo \<Rightarrow> jsstring outcome" where
  "commitChapter chapterPath message =
     await (getWordCount chapterPath) (\<lambda>count.
     await (git_add chapterPath) (\<lambda>_.
     await (git_commit (message_or message (defaultMessage chapterPath count))) (\<lambda>result.
     return_ok result)))"

definition commitAll :: "jsstring \<Rightarrow> repo \<Rightarrow> jsstring outcome" where
  "commitAll message =
     await git_status (\<lambda>status.
     await getTotalWordCount (\<lambda>totalWordCount.
     await (git_add (js ''.'')) (\<lambda>_.
     await (git_commit (enhancedMessage message totalWordCount)) (\<lambda>result.
     return_ok result))))"

text \<open>
  \<open>createDraftTag\<close> computes the total word count and a default message, and then
  creates the tag by its name alone.
\<close>

definition createDraftTag :: "jsstring \<Rightarrow> jsstring option \<Rightarrow> repo \<Rightarrow> unit outcome" where
  "createDraftTag tagName message =
     await getTotalWordCount (\<lambda>totalWordCount.
     git_addTag tagName)"

text \<open>
  \<open>backup\<close>; \<open>timestamp\<close> is the date part of the current time in ISO format, which
  the method reads from the system clock.
\<close>

definition backup :: "jsstring \<Rightarrow> jsstring option \<Rightarrow> repo \<Rightarrow> jsstring outcome" where
  "backup timestamp message =
     (let backupTag = js ''backup-'' @ timestamp in
      await (commitAll (message_or message (js ''Backup: '' @ timestamp))) (\<lambda>_.
      await (createDraftTag backupTag None) (\<lambda>_.
      return_ok backupTag)))"

definition restoreFromBackup :: "jsstring \<Rightarrow> repo \<Rightarrow> unit outcome" where
  "restoreFromBackup tag =
     await (git_checkout tag) (\<lambda>_.
     git_checkoutLocalBranch (js ''restore-'' @ tag))"

record GitCommitInfo =
  hash :: jsstring
  author :: jsstring
  commit_date :: jsstring
  message :: jsstring
  commit_wordCount :: "nat option"

definition getHistory :: "nat \<Rightarrow> repo \<Rightarrow> GitCommitInfo list outcome" where
  "getHistory limit =
     await (git_log_oneline limit) (\<lambda>log.
     return_ok (map (\<lambda>commit. \<lparr>hash = log_hash commit, author = log_author_name commit,
                               commit_date = log_date commit, message = log_message commit,
                               commit_wordCount =
                                 extractWordCountFromMessage (log_message commit)\<rparr>)
                  log))"

section \<open>Word-count history and its chart\<close>

record history_entry =
  date :: jsstring
  wordCount :: nat
  change :: int

text \<open>
  \<open>getWordCountHistory\<close> asks the engine for the log of the window with the format
  \<open>%h|%ai|%s\<close> and reads bars-separated fields back from the \<open>hash\<close> field of every
  entry of \<open>log.all\<close>. The loop below runs over the reversed list of these \<open>hash\<close>
  fields. An entry with fewer than three fields leaves \<open>message\<close> undefined, and the
  decoder then throws a \<open>TypeError\<close>. \<open>extractWordCountFromMessage(message) || 0\<close> is
  \<open>0\<close> for no match.
\<close>

fun history_loop :: "nat \<Rightarrow> jsstring list \<Rightarrow> error + history_entry list" where
  "history_loop previousCount [] = Inr []"
| "history_loop previousCount (commit # rest) =
     (case split_on 124 commit of
        hash_field # date_field # message_field # _ \<Rightarrow>
          (let count = (case extractWordCountFromMessage message_field of
                          None \<Rightarrow> 0 | Some n \<Rightarrow> n)
           in (case history_loop count rest of
                 Inl e \<Rightarrow> Inl e
               | Inr history \<Rightarrow>
                   Inr (\<lparr>date = (case split_on 32 date_field of [] \<Rightarrow> [] | d # _ \<Rightarrow> d),
                         wordCount = count,
                         change = int count - int previousCount\<rparr> # history)))
      | _ \<Rightarrow> Inl TypeError)"

text \<open>
  \<open>window\<close> is the list of the commits that the engine selects with \<open>--since\<close>, newest
  first; the engine prints them in the format of the caller and the handle parses what
  it gets.
\<close>

definition getWordCountHistory :: "commit list \<Rightarrow> error + history_entry list" where
  "getWordCountHistory window =
     history_loop 0 (rev (map log_hash (parse_log (format_text window))))"

text \<open>
  The numbers of the chart: a finite value, positive infinity, or not-a-number. Finite
  values are computed exactly here; the rounding of floating-point arithmetic is not
  modelled.
\<close>

datatype jsnum = Num rat | Infinity | NaN

text \<open>\<open>Math.max\<close> over word counts, for a list that is not empty.\<close>

definition max_words :: "history_entry list \<Rightarrow> nat" where
  "max_words history = foldr max (map wordCount history) 0"

text \<open>\<open>50 / maxWords\<close>: a division by zero gives infinity.\<close>

definition scale_of :: "nat \<Rightarrow> jsnum" where
  "scale_of maxWords = (if maxWords = 0 then Infinity else Num (50 / of_nat maxWords))"

text \<open>\<open>entry.wordCount * scale\<close>: zero times infinity is not a number.\<close>

definition times_scale :: "nat \<Rightarrow> jsnum \<Rightarrow> jsnum" where
  "times_scale wc scale =
     (case scale of
        Num q \<Rightarrow> Num (of_nat wc * q)
      | Infinity \<Rightarrow> if wc = 0 then NaN else Infinity
      | NaN \<Rightarrow> NaN)"

text \<open>\<open>Math.round\<close>: the nearest integer, halves upwards.\<close>

definition math_round :: "jsnum \<Rightarrow> jsnum" where
  "math_round x = (case x of Num q \<Rightarrow> Num (of_int \<lfloor>q + 1 / 2\<rfloor>) | Infinity \<Rightarrow> Infinity | NaN \<Rightarrow> NaN)"

text \<open>
  \<open>s.repeat(count)\<close>: the count is converted to an integer, not-a-number to zero; a
  negative or infinite count throws a \<open>RangeError\<close>.
\<close>

definition repeat :: "jsstring \<Rightarrow> jsnum \<Rightarrow> error + jsstring" where
  "repeat s count =
     (case count of
        Num q \<Rightarrow> if q < 0 then Inl RangeError else Inr (concat (replicate (nat \<lfloor>q\<rfloor>) s))
      | Infinity \<Rightarrow> Inl RangeError
      | NaN \<Rightarrow> Inr [])"

text \<open>The signed delta of a line: \<open>entry.change > 0 ? `+${entry.change}` : `${entry.change}`\<close>.\<close>

definition change_text :: "int \<Rightarrow> jsstring" where
  "change_text c = (if c > 0 then 43 # show_int c else show_int c)"

text \<open>One line of the chart; the bar is made of the code unit of the full block.\<close>

definition chart_line :: "jsnum \<Rightarrow> history_entry \<Rightarrow> error + jsstring" where
  "chart_line scale entry =
     (let barLength = math_round (times_scale (wordCount entry) scale) in
      case repeat [9608] barLength of
        Inl e \<Rightarrow> Inl e
      | Inr bar \<Rightarrow>
          Inr (date entry @ js '' '' @ bar @ js '' '' @ digits_of (wordCount entry)
               @ js '' words ('' @ change_text (change entry) @ js '')'' @ [10]))"

fun chart_loop :: "jsnum \<Rightarrow> history_entry list \<Rightarrow> jsstring \<Rightarrow> error + jsstring" where
  "chart_loop scale [] output = Inr output"
| "chart_loop scale (entry # rest) output =
     (case chart_line scale entry of
        Inl e \<Rightarrow> Inl e
      | Inr line \<Rightarrow> chart_loop scale rest (output @ line))"

text \<open>The two lines above the bars.\<close>

definition chart_header :: jsstring where
  "chart_header =
     js ''Writing Progress (Last 30 Days)'' @ [10] @ concat (replicate 60 (js ''='')) @ [10]"

text \<open>The body of \<open>visualizeProgress\<close> once the history is there.\<close>

definition chart_of :: "history_entry list \<Rightarrow> error + jsstring" where
  "chart_of history =
     (if length history = 0 then Inr (js ''No writing history found.'')
      else
        (let maxWords = max_words history;
             scale = scale_of maxWords
         in chart_loop scale history chart_header))"

definition visualizeProgress :: "commit list \<Rightarrow> error + jsstring" where
  "visualizeProgress window =
     (case getWordCountHistory window of
        Inl e \<Rightarrow> Inl e
      | Inr history \<Rightarrow> chart_of history)"

text \<open>
  The specification's project-wide count: the sum of the word counts of all writing
  files of the project, changed or not.
\<close>

definition is_writing_file :: "jsstring \<Rightarrow> bool" where
  "is_writing_file file \<longleftrightarrow>
     endsWith file (js ''.md'') \<or> endsWith file (js ''.txt'') \<or> endsWith file (js ''.fountain'')"

definition project_words_spec :: "repo \<Rightarrow> nat" where
  "project_words_spec r =
     sum_list (map (\<lambda>e. countWords (snd e)) (filter (\<lambda>e. is_writing_file (fst e)) (worktree r)))"

section \<open>Example repositories\<close>

text \<open>
  A project just initialised: one commit on \<open>main\<close>, a clean working tree.
\<close>

definition initial_commit :: commit where
  "initial_commit =
     Commit (js ''0'') (js ''writer'') (js ''2025-01-01 09:00:00 +0000'')
       (js ''Initial commit: Writer project setup'') [(js ''.gitignore'', js ''.env'')] None"

definition fresh_repo :: repo where
  "fresh_repo =
     \<lparr>objects = [initial_commit],
      branches = [js ''main'' \<mapsto> initial_commit],
      tags = Map.empty,
      HEAD = OnBranch (js ''main''),
      index = [(js ''.gitignore'', js ''.env'')],
      worktree = [(js ''.gitignore'', js ''.env'')],
      user_name = js ''writer'',
      clock = js ''2025-01-02 09:00:00 +0000''\<rparr>"

text \<open>The same project with a first chapter written and not yet added.\<close>

definition chapter_repo :: repo where
  "chapter_repo =
     fresh_repo\<lparr>worktree := [(js ''chapters/01.md'', js ''The quick brown fox jumps.''),
                             (js ''.gitignore'', js ''.env'')]\<rparr>"

text \<open>
  The project after the first chapter was committed, with a clean working tree; then
  with a second chapter written and not yet added; then with the first chapter deleted
  from the working tree.
\<close>

definition chapter_commit :: commit where
  "chapter_commit =
     Commit (js ''1'') (js ''writer'') (js ''2025-01-02 09:00:00 +0000'')
       (js ''Update chapters/01.md (5 words)'')
       [(js ''chapters/01.md'', js ''The quick brown fox jumps.''),
        (js ''.gitignore'', js ''.env'')]
       (Some initial_commit)"

text \<open>A backup commit on top of the chapter commit, with both chapters.\<close>

definition backup_commit :: commit where
  "backup_commit =
     Commit (js ''2'') (js ''writer'') (js ''2025-01-03 09:00:00 +0000'')
       (js ''Backup: 2025-01-03 (8 total words)'')
       [(js ''chapters/02.md'', js ''one two three''),
        (js ''chapters/01.md'', js ''The quick brown fox jumps.''),
        (js ''.gitignore'', js ''.env'')]
       (Some chapter_commit)"

definition committed_repo :: repo where
  "committed_repo =
     \<lparr>objects = [initial_commit, chapter_commit],
      branches = [js ''main'' \<mapsto> chapter_commit],
      tags = Map.empty,
      HEAD = OnBranch (js ''main''),
      index = c_tree chapter_commit,
      worktree = c_tree chapter_commit,
      user_name = js ''writer'',
      clock = js ''2025-01-03 09:00:00 +0000''\<rparr>"

definition draft_repo :: repo where
  "draft_repo =
     committed_repo\<lparr>worktree := (js ''chapters/02.md'', js ''one two three'')
                                  # c_tree chapter_commit\<rparr>"




section \<open>Properties of the word count\<close>

lemma tokens_spec_dropWhile: "tokens_spec (dropWhile is_space s) = tokens_spec s"
  by (subst (1 2) tokens_spec.simps) simp

lemma tokens_spec_word:
  assumes "w \<noteq> []" "\<forall>x\<in>set w. \<not> is_space x" "r = [] \<or> is_space (hd r)"
  shows "tokens_spec (w @ r) = w # tokens_spec r"
proof -
  obtain a as where w: "w = a # as" using assms(1) by (cases w) auto
  have d: "dropWhile is_space (w @ r) = w @ r" using w assms(2) by simp
  have t: "takeWhile (\<lambda>x. \<not> is_space x) (w @ r) = w"
    using assms(2,3) by (cases r) (auto simp: takeWhile_append)
  have dd: "dropWhile (\<lambda>x. \<not> is_space x) (as @ r) = r"
    using assms(2,3) w by (cases r) (auto simp: dropWhile_append)
  show ?thesis
    apply (subst tokens_spec.simps)
    using d t dd w by (simp)
qed

lemma split_from_tokens:
  "\<forall>x\<in>set tok. \<not> is_space x \<Longrightarrow>
   filter (\<lambda>word. length word > 0) (split_from tok s) = tokens_spec (rev tok @ s)"
proof (induction tok s rule: split_from.induct)
  case (1 tok)
  show ?case
  proof (cases "tok = []")
    case True then show ?thesis by (simp add: tokens_spec.simps)
  next
    case False
    then show ?thesis using tokens_spec_word [of "rev tok" "[]"] 1
      by (simp add: tokens_spec.simps [of "[]"])
  qed
next
  case (2 tok c cs)
  show ?case
  proof (cases "is_space c")
    case True
    have ih: "filter (\<lambda>word. length word > 0) (split_from [] (dropWhile is_space cs))
              = tokens_spec (dropWhile is_space cs)"
      using 2(1) [OF True] by simp
    have r: "tokens_spec (c # cs) = tokens_spec (dropWhile is_space cs)"
      using tokens_spec_dropWhile [of "c # cs"] True by simp
    show ?thesis
    proof (cases "tok = []")
      case True
      then show ?thesis using ih r \<open>is_space c\<close> by simp
    next
      case False
      then show ?thesis
        using tokens_spec_word [of "rev tok" "c # cs"] 2(3) ih r \<open>is_space c\<close> by simp
    qed
  next
    case False
    then show ?thesis using 2(2) [OF False] 2(3) by simp
  qed
qed

lemma countWords_spec: "countWords s = length (tokens_spec s)"
  using split_from_tokens [of "[]" s] by (simp add: countWords_def split_ws_def)


text \<open>
  C9. \<open>countWords\<close> is a function of its input alone, with a natural number as its
  value. It equals the number of tokens obtained by splitting the input on runs of white
  space and keeping the tokens that are not empty; the empty string and a string of
  blanks count \<open>0\<close>, and \<open>one two  three\<close> counts \<open>3\<close>.
\<close>

theorem countWords_counts_tokens:
  "countWords s = length (tokens_spec s)
   \<and> countWords [] = 0
   \<and> countWords (js ''   '') = 0
   \<and> countWords (js ''one two  three'') = 3"
proof -
  have a: "countWords [] = 0" by (simp add: countWords_def split_ws_def)
  have b: "countWords (js ''   '') = 0"
    by (simp add: countWords_def split_ws_def js_def is_space_def)
  have c: "countWords (js ''one two  three'') = 3"
    by (simp add: countWords_def split_ws_def js_def is_space_def)
  show ?thesis using countWords_spec [of s] a b c by simp
qed

section \<open>Properties of the codec\<close>


lemma digits_of_digits: "\<forall>d\<in>set (digits_of n). is_digit d"
proof (induction n rule: digits_of.induct)
  case (1 n)
  show ?case
  proof (cases "n < 10")
    case True then show ?thesis by (subst digits_of.simps) (simp add: is_digit_def)
  next
    case False
    have "n mod 10 < 10" by simp
    then have "is_digit (48 + n mod 10)" unfolding is_digit_def by linarith
    then show ?thesis using 1 False by (subst digits_of.simps) simp
  qed
qed

lemma digits_of_nonempty: "digits_of n \<noteq> []"
  by (subst digits_of.simps) simp

lemma parseInt_snoc: "parseInt (ds @ [d]) = 10 * parseInt ds + (d - 48)"
  by (simp add: parseInt_def)

lemma parseInt_digits_of: "parseInt (digits_of n) = n"
proof (induction n rule: digits_of.induct)
  case (1 n)
  show ?case
  proof (cases "n < 10")
    case True then show ?thesis by (subst digits_of.simps) (simp add: parseInt_def)
  next
    case False
    then show ?thesis using 1 by (subst digits_of.simps) (simp add: parseInt_snoc)
  qed
qed

lemma strip_prefix_append:
  "strip_prefix p s = Some r \<Longrightarrow> strip_prefix p (s @ t) = Some (r @ t)"
  by (induction p s rule: strip_prefix.induct) (auto split: if_splits)

lemma strip_prefix_none_append:
  "strip_prefix p s = None \<Longrightarrow> x \<notin> set p \<Longrightarrow> strip_prefix p (s @ x # t) = None"
  by (induction p s rule: strip_prefix.induct) (auto split: if_splits)

lemma match_close_append:
  "match_close n s = None \<Longrightarrow> match_close n (s @ 32 # t) = None"
  by (cases s) (auto simp: match_close_def)

lemma match_words_append:
  assumes "match_words n s = None"
  shows "match_words n (s @ 32 # t) = None"
proof (cases "strip_prefix (js ''word'') s")
  case None
  then have "strip_prefix (js ''word'') (s @ 32 # t) = None"
    by (rule strip_prefix_none_append) (simp add: js_def)
  then show ?thesis by (simp add: match_words_def)
next
  case (Some r)
  then have a: "strip_prefix (js ''word'') (s @ 32 # t) = Some (r @ 32 # t)"
    by (rule strip_prefix_append)
  show ?thesis
  proof (cases r)
    case Nil
    then show ?thesis using a by (simp add: match_words_def match_close_def)
  next
    case (Cons c cs)
    show ?thesis
    proof (cases "c = 115")
      case True
      then have "match_close n cs = None" using assms Some Cons by (simp add: match_words_def)
      then have "match_close n (cs @ 32 # t) = None" by (rule match_close_append)
      then show ?thesis using a Cons True by (simp add: match_words_def)
    next
      case False
      then have "match_close n r = None" using assms Some Cons by (simp add: match_words_def)
      then have "match_close n (r @ 32 # t) = None" by (rule match_close_append)
      then show ?thesis using a Cons False by (simp add: match_words_def)
    qed
  qed
qed

lemma match_words_paren: "match_words n (40 # t) = None"
  by (simp add: match_words_def js_def)

lemma is_space_32: "is_space 32" by (simp add: is_space_def)
lemma not_space_40: "\<not> is_space 40" by (simp add: is_space_def)

lemma dropWhile_space_append:
  "dropWhile is_space (s @ 32 # 40 # t) =
     (if \<forall>x\<in>set s. is_space x then 40 # t else dropWhile is_space s @ 32 # 40 # t)"
  by (induction s) (simp_all add: is_space_32 not_space_40)
lemma match_total_append:
  assumes "match_total n s = None"
  shows "match_total n (s @ 32 # 40 # t) = None"
proof (cases "strip_prefix (js ''total'') s")
  case None
  then have "strip_prefix (js ''total'') (s @ 32 # 40 # t) = None"
    by (rule strip_prefix_none_append) (simp add: js_def)
  then show ?thesis using assms None by (simp add: match_total_def match_words_append)
next
  case (Some r)
  then have a: "strip_prefix (js ''total'') (s @ 32 # 40 # t) = Some (r @ 32 # 40 # t)"
    by (rule strip_prefix_append)
  show ?thesis
  proof (cases r)
    case Nil
    then show ?thesis using a
      by (simp add: match_total_def is_space_32 not_space_40 match_words_paren)
  next
    case (Cons c cs)
    then show ?thesis using a assms Some
      by (auto simp: match_total_def dropWhile_space_append match_words_paren
          intro: match_words_append split: if_splits)
  qed
qed

lemma match_total_paren: "match_total n (40 # t) = None"
  by (simp add: match_total_def js_def match_words_paren)

lemma match_spaces_append:
  assumes "match_spaces n s = None"
  shows "match_spaces n (s @ 32 # 40 # t) = None"
proof (cases s)
  case Nil
  then show ?thesis by (simp add: match_spaces_def is_space_32 not_space_40 match_total_paren)
next
  case (Cons c cs)
  then show ?thesis using assms
    by (auto simp: match_spaces_def dropWhile_space_append match_total_paren
        intro: match_total_append split: if_splits)
qed

lemma takeWhile_digit_append:
  "takeWhile is_digit (s @ 32 # t) = takeWhile is_digit s"
  by (induction s) (auto simp: is_digit_def)

lemma dropWhile_digit_append:
  "dropWhile is_digit (s @ 32 # t) = dropWhile is_digit s @ 32 # t"
  by (induction s) (auto simp: is_digit_def)

lemma match_here_append:
  assumes "match_here s = None"
  shows "match_here (s @ 32 # 40 # t) = None"
proof (cases s)
  case Nil
  then show ?thesis by (simp add: match_here_def)
next
  case (Cons c cs)
  then show ?thesis using assms
    by (auto simp: match_here_def takeWhile_digit_append dropWhile_digit_append
        intro: match_spaces_append split: if_splits list.splits)
qed

lemma extract_append:
  "extractWordCountFromMessage s = None \<Longrightarrow>
   extractWordCountFromMessage (s @ 32 # 40 # t) = extractWordCountFromMessage (40 # t)"
proof (induction s)
  case Nil
  then show ?case by (simp add: match_here_def)
next
  case (Cons c cs)
  then have m: "match_here (c # cs) = None" and e: "extractWordCountFromMessage cs = None"
    by (auto split: option.splits)
  have "match_here ((c # cs) @ 32 # 40 # t) = None" using m by (rule match_here_append)
  then show ?case using Cons.IH [OF e] by simp
qed

lemma match_here_digits:
  assumes "match_spaces n (32 # t) = Some n"
  shows "match_here (40 # digits_of n @ 32 # t) = Some n"
proof -
  obtain d ds where d: "digits_of n = d # ds" using digits_of_nonempty by (cases "digits_of n") auto
  have tw: "takeWhile is_digit (digits_of n @ 32 # t) = digits_of n"
    using digits_of_digits [of n] by (simp add: takeWhile_append is_digit_def)
  have dw: "dropWhile is_digit (digits_of n @ 32 # t) = 32 # t"
    using digits_of_digits [of n] by (simp add: dropWhile_append is_digit_def)
  show ?thesis
    using tw dw d assms parseInt_digits_of [of n] by (simp add: match_here_def)
qed

lemma extract_words:
  "extractWordCountFromMessage (40 # digits_of n @ js '' words)'') = Some n"
proof -
  have "match_spaces n (js '' words)'') = Some n"
    by (simp add: js_def match_spaces_def match_total_def match_words_def match_close_def is_space_def)
  then have "match_here (40 # digits_of n @ js '' words)'') = Some n"
    using match_here_digits [of n "js ''words)''"] by (simp add: js_def)
  then show ?thesis by simp
qed

lemma extract_total_words:
  "extractWordCountFromMessage (40 # digits_of n @ js '' total words)'') = Some n"
proof -
  have "match_spaces n (js '' total words)'') = Some n"
    by (simp add: js_def match_spaces_def match_total_def match_words_def match_close_def is_space_def)
  then have "match_here (40 # digits_of n @ js '' total words)'') = Some n"
    using match_here_digits [of n "js ''total words)''"] by (simp add: js_def)
  then show ?thesis by simp
qed

lemma extract_none_drop:
  "extractWordCountFromMessage s = None \<Longrightarrow> match_here (drop i s) = None"
proof (induction s arbitrary: i)
  case Nil
  then show ?case by (simp add: match_here_def)
next
  case (Cons c cs)
  then have m: "match_here (c # cs) = None" and e: "extractWordCountFromMessage cs = None"
    by (auto split: option.splits)
  show ?case
  proof (cases i)
    case 0 then show ?thesis using m by simp
  next
    case (Suc j) then show ?thesis using Cons.IH [OF e, of j] by simp
  qed
qed

lemma extract_none_if:
  "(\<And>i. i < length s \<Longrightarrow> match_here (drop i s) = None) \<Longrightarrow> extractWordCountFromMessage s = None"
proof (induction s)
  case Nil
  then show ?case by simp
next
  case (Cons c cs)
  have m: "match_here (c # cs) = None" using Cons.prems [of 0] by simp
  have "\<And>i. i < length cs \<Longrightarrow> match_here (drop i cs) = None"
    using Cons.prems [of "Suc i" for i] by simp
  then have "extractWordCountFromMessage cs = None" by (rule Cons.IH)
  then show ?case using m by simp
qed


lemma extract_encoded_words:
  assumes "extractWordCountFromMessage s = None"
  shows "extractWordCountFromMessage (s @ js '' ('' @ digits_of n @ js '' words)'') = Some n"
  using extract_append [OF assms, of "digits_of n @ js '' words)''"] extract_words [of n]
  by (simp add: js_def)

lemma extract_encoded_total_words:
  assumes "extractWordCountFromMessage s = None"
  shows "extractWordCountFromMessage (enhancedMessage s n) = Some n"
  using extract_append [OF assms, of "digits_of n @ js '' total words)''"]
    extract_total_words [of n]
  by (simp add: js_def enhancedMessage_def)

subsection \<open>The matcher and the pattern\<close>

lemma strip_prefix_some: "strip_prefix p s = Some r \<Longrightarrow> s = p @ r"
  by (induction p s rule: strip_prefix.induct) (auto split: if_splits)

lemma strip_prefix_same: "strip_prefix p (p @ r) = Some r"
  by (induction p) auto

lemma space_not_digit: "is_space c \<Longrightarrow> \<not> is_digit c"
  by (auto simp: is_space_def is_digit_def)

lemma dropWhile_all_then:
  "list_all P xs \<Longrightarrow> \<not> P y \<Longrightarrow> dropWhile P (xs @ y # ys) = y # ys"
  by (induction xs) auto

lemma takeWhile_all_then:
  "list_all P xs \<Longrightarrow> \<not> P y \<Longrightarrow> takeWhile P (xs @ y # ys) = xs"
  by (induction xs) auto

lemma match_close_some: "match_close n s = Some m \<Longrightarrow> \<exists>v. s = 41 # v"
  by (cases s) (auto simp: match_close_def split: if_splits)

lemma match_words_some:
  assumes "match_words n s = Some m"
  shows "\<exists>z v. s = js ''word'' @ z @ 41 # v \<and> (z = [] \<or> z = [115])"
proof -
  from assms obtain r where r: "strip_prefix (js ''word'') s = Some r"
    by (auto simp: match_words_def split: option.splits)
  then have s: "s = js ''word'' @ r" by (rule strip_prefix_some)
  from assms r obtain c cs where rc: "r = c # cs"
    by (cases r) (auto simp: match_words_def)
  show ?thesis
  proof (cases "c = 115")
    case True
    then have "match_close n cs = Some m" using assms r rc by (simp add: match_words_def)
    then obtain v where "cs = 41 # v" using match_close_some by blast
    then have "s = js ''word'' @ [115] @ 41 # v" using s rc True by simp
    then show ?thesis by blast
  next
    case False
    then have "match_close n r = Some m" using assms r rc by (simp add: match_words_def)
    then obtain v where "r = 41 # v" using match_close_some by blast
    then have "s = js ''word'' @ [] @ 41 # v" using s by simp
    then show ?thesis by blast
  qed
qed

lemma match_total_some:
  assumes "match_total n s = Some m"
  shows "\<exists>mid z v. s = mid @ js ''word'' @ z @ 41 # v
           \<and> (mid = [] \<or> (\<exists>sp2. mid = js ''total'' @ sp2 \<and> sp2 \<noteq> [] \<and> list_all is_space sp2))
           \<and> (z = [] \<or> z = [115])"
proof -
  consider (plain) "match_words n s = Some m"
    | (total) c cs where "strip_prefix (js ''total'') s = Some (c # cs)" "is_space c"
        "match_words n (dropWhile is_space cs) = Some m"
    using assms by (auto simp: match_total_def split: option.splits list.splits if_splits)
  then show ?thesis
  proof cases
    case plain
    from match_words_some [OF this] obtain z v where
      "s = [] @ js ''word'' @ z @ 41 # v" "z = [] \<or> z = [115]" by auto
    then show ?thesis by blast
  next
    case total
    from match_words_some [OF total(3)] obtain z v where
      d: "dropWhile is_space cs = js ''word'' @ z @ 41 # v" and z: "z = [] \<or> z = [115]"
      by auto
    let ?sp2 = "c # takeWhile is_space cs"
    have "s = js ''total'' @ c # cs" using total(1) by (rule strip_prefix_some)
    also have "cs = takeWhile is_space cs @ dropWhile is_space cs" by simp
    finally have "s = (js ''total'' @ ?sp2) @ js ''word'' @ z @ 41 # v" using d by simp
    moreover have "list_all is_space ?sp2"
      using total(2) by (simp add: list_all_iff) (meson set_takeWhileD)
    ultimately show ?thesis using z by blast
  qed
qed

lemma match_spaces_some:
  assumes "match_spaces n s = Some m"
  shows "\<exists>sp t. s = sp @ t \<and> sp \<noteq> [] \<and> list_all is_space sp \<and> match_total n t = Some m"
proof -
  from assms obtain c cs where s: "s = c # cs" and c: "is_space c"
    and t: "match_total n (dropWhile is_space cs) = Some m"
    by (cases s) (auto simp: match_spaces_def split: if_splits)
  let ?sp = "c # takeWhile is_space cs"
  have "s = ?sp @ dropWhile is_space cs" using s by simp
  moreover have "list_all is_space ?sp"
    using c by (simp add: list_all_iff) (meson set_takeWhileD)
  ultimately show ?thesis using t by blast
qed

lemma match_here_sound:
  assumes "match_here s = Some m"
  shows "\<exists>w v. s = w @ v \<and> count_pattern w"
proof -
  from assms obtain cs where s: "s = 40 # cs"
    by (cases s) (auto simp: match_here_def split: if_splits)
  let ?ds = "takeWhile is_digit cs"
  from assms s have ds: "?ds \<noteq> []"
    by (auto simp: match_here_def split: list.splits)
  from assms s ds have "match_spaces (parseInt ?ds) (dropWhile is_digit cs) = Some m"
    by (auto simp: match_here_def split: list.splits)
  from match_spaces_some [OF this] obtain sp t where
    r1: "dropWhile is_digit cs = sp @ t" and sp: "sp \<noteq> []" "list_all is_space sp"
    and t: "match_total (parseInt ?ds) t = Some m" by blast
  from match_total_some [OF t] obtain mid z v where
    t': "t = mid @ js ''word'' @ z @ 41 # v"
    and mid: "mid = [] \<or> (\<exists>sp2. mid = js ''total'' @ sp2 \<and> sp2 \<noteq> [] \<and> list_all is_space sp2)"
    and z: "z = [] \<or> z = [115]" by blast
  have "cs = ?ds @ dropWhile is_digit cs" by simp
  then have "s = (40 # ?ds @ sp @ mid @ js ''word'' @ z @ [41]) @ v"
    using s r1 t' by simp
  moreover have "list_all is_digit ?ds" by (simp add: list_all_iff) (meson set_takeWhileD)
  then have "count_pattern (40 # ?ds @ sp @ mid @ js ''word'' @ z @ [41])"
    unfolding count_pattern_def using ds sp mid z by blast
  ultimately show ?thesis by blast
qed

lemma not_space_letters: "\<not> is_space 116" "\<not> is_space 119" "\<not> is_space 41" "\<not> is_space 115"
  by (simp_all add: is_space_def)

lemma match_words_complete:
  assumes "z = [] \<or> z = [115]"
  shows "match_words n (js ''word'' @ z @ 41 # v) = Some n"
proof -
  have "strip_prefix (js ''word'') (js ''word'' @ z @ 41 # v) = Some (z @ 41 # v)"
    by (rule strip_prefix_same)
  then show ?thesis using assms by (auto simp: match_words_def match_close_def)
qed

lemma match_total_complete:
  assumes "mid = [] \<or> (\<exists>sp2. mid = js ''total'' @ sp2 \<and> sp2 \<noteq> [] \<and> list_all is_space sp2)"
    and "z = [] \<or> z = [115]"
  shows "match_total n (mid @ js ''word'' @ z @ 41 # v) = Some n"
proof (cases "mid = []")
  case True
  have "strip_prefix (js ''total'') (js ''word'' @ z @ 41 # v) = None" by (simp add: js_def)
  then show ?thesis using True match_words_complete [OF assms(2)]
    by (simp add: match_total_def)
next
  case False
  then obtain sp2 where m: "mid = js ''total'' @ sp2" and ne: "sp2 \<noteq> []"
    and sp: "list_all is_space sp2" using assms(1) by blast
  obtain c cs where cs: "sp2 = c # cs" using ne by (cases sp2) auto
  have sp': "is_space c" "list_all is_space cs" using sp cs by simp_all
  have w: "js ''word'' @ z @ 41 # v = 119 # (js ''ord'' @ z @ 41 # v)" by (simp add: js_def)
  have d: "dropWhile is_space (cs @ js ''word'' @ z @ 41 # v) = js ''word'' @ z @ 41 # v"
    unfolding w using sp'(2) not_space_letters(2) by (rule dropWhile_all_then)
  have "strip_prefix (js ''total'') (mid @ js ''word'' @ z @ 41 # v)
          = Some (c # cs @ js ''word'' @ z @ 41 # v)"
    using strip_prefix_same [of "js ''total''" "c # cs @ js ''word'' @ z @ 41 # v"] m cs
    by simp
  then show ?thesis using sp'(1) d match_words_complete [OF assms(2)]
    by (simp add: match_total_def)
qed

lemma match_here_complete:
  assumes "count_pattern w"
  shows "match_here (w @ v) \<noteq> None"
proof -
  from assms obtain ds sp mid z where
    w: "w = 40 # ds @ sp @ mid @ js ''word'' @ z @ [41]"
    and ds: "ds \<noteq> []" "list_all is_digit ds"
    and sp: "sp \<noteq> []" "list_all is_space sp"
    and mid: "mid = [] \<or> (\<exists>sp2. mid = js ''total'' @ sp2 \<and> sp2 \<noteq> [] \<and> list_all is_space sp2)"
    and z: "z = [] \<or> z = [115]"
    unfolding count_pattern_def by blast
  obtain c cs where cs: "sp = c # cs" using sp(1) by (cases sp) auto
  have c: "is_space c" "list_all is_space cs" using sp(2) cs by simp_all
  let ?rest = "mid @ js ''word'' @ z @ 41 # v"
  have wv: "w @ v = 40 # ds @ c # cs @ ?rest" using w cs by simp
  have tw: "takeWhile is_digit (ds @ c # cs @ ?rest) = ds"
    using ds(2) space_not_digit [OF c(1)] by (rule takeWhile_all_then)
  have dw: "dropWhile is_digit (ds @ c # cs @ ?rest) = c # cs @ ?rest"
    using ds(2) space_not_digit [OF c(1)] by (rule dropWhile_all_then)
  obtain y ys where rest: "?rest = y # ys" "\<not> is_space y"
  proof (cases "mid = []")
    case True
    then have "?rest = 119 # (js ''ord'' @ z @ 41 # v)" by (simp add: js_def)
    then show ?thesis using that not_space_letters(2) by blast
  next
    case False
    then obtain sp2 where "mid = js ''total'' @ sp2" using mid by blast
    then have "?rest = 116 # (js ''otal'' @ sp2 @ js ''word'' @ z @ 41 # v)"
      by (simp add: js_def)
    then show ?thesis using that not_space_letters(1) by blast
  qed
  have ds2: "dropWhile is_space (cs @ ?rest) = ?rest"
    unfolding rest(1) using c(2) rest(2) by (rule dropWhile_all_then)
  obtain d ds' where dd: "ds = d # ds'" using ds(1) by (cases ds) auto
  have "match_here (w @ v) = match_total (parseInt ds) ?rest"
    unfolding wv using tw dw dd c(1) ds2 by (simp add: match_here_def match_spaces_def)
  then show ?thesis using match_total_complete [OF mid z] by simp
qed

lemma extract_none_pattern:
  "extractWordCountFromMessage t = None
     \<longleftrightarrow> \<not> (\<exists>u w v. t = u @ w @ v \<and> count_pattern w)"
proof
  assume n: "extractWordCountFromMessage t = None"
  show "\<not> (\<exists>u w v. t = u @ w @ v \<and> count_pattern w)"
  proof
    assume "\<exists>u w v. t = u @ w @ v \<and> count_pattern w"
    then obtain u w v where t: "t = u @ w @ v" and w: "count_pattern w" by blast
    have "match_here (drop (length u) t) = None" using n by (rule extract_none_drop)
    then show False using match_here_complete [OF w, of v] t by simp
  qed
next
  assume a: "\<not> (\<exists>u w v. t = u @ w @ v \<and> count_pattern w)"
  show "extractWordCountFromMessage t = None"
  proof (rule extract_none_if)
    fix i assume "i < length t"
    show "match_here (drop i t) = None"
    proof (rule ccontr)
      assume "match_here (drop i t) \<noteq> None"
      then obtain m where "match_here (drop i t) = Some m" by auto
      from match_here_sound [OF this] obtain w v where
        "drop i t = w @ v" "count_pattern w" by blast
      then have "t = take i t @ w @ v \<and> count_pattern w"
        by (metis append_take_drop_id)
      then show False using a by blast
    qed
  qed
qed

text \<open>
  C3. For every word count \<open>n\<close> below \<open>2^53\<close> and every text \<open>s\<close> in which the pattern
  has no match, decoding \<open>s\<close> followed by \<open>(n words)\<close> or by \<open>(n total words)\<close> gives
  \<open>n\<close>. Decoding is a total function, and its result is \<open>None\<close> exactly for the texts
  no part of which has the form of the pattern.
\<close>

theorem decode_encode_round_trip:
  assumes "extractWordCountFromMessage s = None" and "n < 2 ^ 53"
  shows "extractWordCountFromMessage (s @ js '' ('' @ digits_of n @ js '' words)'') = Some n
         \<and> extractWordCountFromMessage (enhancedMessage s n) = Some n
         \<and> ((extractWordCountFromMessage t = None)
              = (\<not> (\<exists>u w v. t = u @ w @ v \<and> count_pattern w)))"
  using extract_encoded_words [OF assms(1)] extract_encoded_total_words [OF assms(1)]
    extract_none_pattern [of t]
  by simp

theorem decode_encode_round_trip_witness:
  "extractWordCountFromMessage (js ''First line'') = None
   \<and> (5::nat) < 2 ^ 53
   \<and> extractWordCountFromMessage (js ''First line'' @ js '' ('' @ digits_of 5 @ js '' words)'') = Some 5
   \<and> extractWordCountFromMessage (enhancedMessage (js ''First line'') 5) = Some 5"
proof -
  have h: "extractWordCountFromMessage (js ''First line'') = None"
    by (simp add: js_def match_here_def match_spaces_def match_total_def match_words_def
        match_close_def is_digit_def is_space_def parseInt_def)
  have b: "(5::nat) < 2 ^ 53" by simp
  show ?thesis using h b decode_encode_round_trip [OF h b, of "[]"] by simp
qed

section \<open>Properties of the word-count history\<close>


lemma wordCount_le_max_words: "e \<in> set history \<Longrightarrow> wordCount e \<le> max_words history"
  by (induction history) (auto simp: max_words_def)

lemma chart_line_ok:
  assumes "wordCount e \<le> m"
  shows "\<exists>bar. chart_line (scale_of m) e =
           Inr (date e @ js '' '' @ bar @ js '' '' @ digits_of (wordCount e)
                @ js '' words ('' @ change_text (change e) @ js '')'' @ [10])
         \<and> (m = 0 \<longrightarrow> bar = [])"
proof (cases "m = 0")
  case True
  then have "wordCount e = 0" using assms by simp
  then show ?thesis using True
    by (simp add: chart_line_def scale_of_def times_scale_def math_round_def repeat_def)
next
  case False
  have "0 \<le> (of_nat (wordCount e) :: rat) * 50 / of_nat m" by simp
  then have "\<not> (of_nat (wordCount e) :: rat) * 50 / of_nat m + 1 / 2 < 0" by linarith
  then show ?thesis using False
    by (simp add: chart_line_def scale_of_def times_scale_def math_round_def repeat_def)
qed

lemma chart_loop_ok:
  "\<forall>e\<in>set history. wordCount e \<le> m \<Longrightarrow>
   \<exists>out. chart_loop (scale_of m) history acc = Inr out"
proof (induction history arbitrary: acc)
  case Nil
  then show ?case by simp
next
  case (Cons e history)
  then have "wordCount e \<le> m" by simp
  from chart_line_ok [OF this] obtain line where "chart_line (scale_of m) e = Inr line"
    by blast
  then show ?case using Cons by simp
qed

lemma chart_loop_zero:
  "\<forall>e\<in>set history. wordCount e = 0 \<Longrightarrow>
   chart_loop (scale_of 0) history acc =
     Inr (acc @ concat (map (\<lambda>e. date e @ js ''  0 words ('' @ change_text (change e)
                                   @ js '')'' @ [10]) history))"
proof (induction history arbitrary: acc)
  case Nil
  then show ?case by simp
next
  case (Cons e history)
  then have z: "wordCount e = 0" by simp
  then have "wordCount e \<le> 0" by simp
  from chart_line_ok [OF this] have "chart_line (scale_of 0) e =
      Inr (date e @ js ''  0 words ('' @ change_text (change e) @ js '')'' @ [10])"
    using z digits_of.simps [of 0] by (auto simp: js_def)
  then show ?case using Cons by simp
qed

lemma max_words_zero: "\<forall>e\<in>set history. wordCount e = 0 \<Longrightarrow> max_words history = 0"
  by (induction history) (auto simp: max_words_def)


text \<open>
  C7. getWordCountHistory does not give an entry to every commit of the window. The
  format it passes to the engine replaces the format of the handle, so the answer for
  a window of three commits is parsed into one single entry of \<open>log.all\<close>, whose
  \<open>hash\<close> is the whole answer; the loop runs once and returns one entry, made of the
  first three fields: the date of the newest commit and the count of its message, with
  that count as its change. For a window of one commit the entry is the one expected.
\<close>

theorem getWordCountHistory_one_entry_for_window:
  "length (parse_log (format_text [backup_commit, chapter_commit, initial_commit])) = 1
   \<and> getWordCountHistory [backup_commit, chapter_commit, initial_commit]
       = Inr [\<lparr>date = js ''2025-01-03'', wordCount = 8, change = 8\<rparr>]
   \<and> getWordCountHistory [chapter_commit]
       = Inr [\<lparr>date = js ''2025-01-02'', wordCount = 5, change = 5\<rparr>]"
proof -
  have a: "length (parse_log (format_text [backup_commit, chapter_commit, initial_commit])) = 1"
    by (simp add: parse_log_def format_text_def subject_of_def split_str_def trim_def
        START_BOUNDARY_def starts_with_def backup_commit_def chapter_commit_def
        initial_commit_def js_def is_space_def)
  have b: "getWordCountHistory [backup_commit, chapter_commit, initial_commit]
       = Inr [\<lparr>date = js ''2025-01-03'', wordCount = 8, change = 8\<rparr>]"
    by (simp add: getWordCountHistory_def parse_log_def format_text_def subject_of_def
        split_str_def trim_def build_line_def field_at_def START_BOUNDARY_def
        COMMIT_BOUNDARY_def SPLITTER_def starts_with_def backup_commit_def chapter_commit_def
        initial_commit_def js_def is_space_def match_here_def match_spaces_def
        match_total_def match_words_def match_close_def is_digit_def parseInt_def)
  have c: "getWordCountHistory [chapter_commit]
       = Inr [\<lparr>date = js ''2025-01-02'', wordCount = 5, change = 5\<rparr>]"
    by (simp add: getWordCountHistory_def parse_log_def format_text_def subject_of_def
        split_str_def trim_def build_line_def field_at_def START_BOUNDARY_def
        COMMIT_BOUNDARY_def SPLITTER_def starts_with_def chapter_commit_def
        initial_commit_def js_def is_space_def match_here_def match_spaces_def
        match_total_def match_words_def match_close_def is_digit_def parseInt_def)
  show ?thesis using a b c by simp
qed

text \<open>
  C8. The chart is defined for every history: no entry makes it throw. An empty history
  gives the one message that no history was found, and so does an empty log. A history
  whose word counts are all zero gives a line with an empty bar for every entry: the
  division by the zero maximum yields infinity, zero times infinity is not a number,
  and a bar repeated not-a-number times is empty.
\<close>

theorem chart_of_total:
  "(\<exists>out. chart_of history = Inr out)
   \<and> chart_of [] = Inr (js ''No writing history found.'')
   \<and> visualizeProgress [] = Inr (js ''No writing history found.'')
   \<and> (history \<noteq> [] \<and> (\<forall>e\<in>set history. wordCount e = 0) \<longrightarrow>
        chart_of history =
          Inr (chart_header
               @ concat (map (\<lambda>e. date e @ js ''  0 words ('' @ change_text (change e)
                                    @ js '')'' @ [10]) history)))"
proof -
  have total: "\<exists>out. chart_of history = Inr out"
  proof (cases "history = []")
    case True
    then show ?thesis by (simp add: chart_of_def)
  next
    case False
    have "\<forall>e\<in>set history. wordCount e \<le> max_words history"
      by (simp add: wordCount_le_max_words)
    from chart_loop_ok [OF this] show ?thesis using False by (simp add: chart_of_def)
  qed
  have empty: "chart_of [] = Inr (js ''No writing history found.'')"
    by (simp add: chart_of_def)
  have log: "visualizeProgress [] = Inr (js ''No writing history found.'')"
    by (simp add: visualizeProgress_def getWordCountHistory_def format_text_def parse_log_def
        trim_def split_str_def chart_of_def)
  have zero: "chart_of history =
          Inr (chart_header
               @ concat (map (\<lambda>e. date e @ js ''  0 words ('' @ change_text (change e)
                                    @ js '')'' @ [10]) history))"
    if "history \<noteq> []" "\<forall>e\<in>set history. wordCount e = 0"
    using that chart_loop_zero [OF that(2), of chart_header] max_words_zero [OF that(2)]
    by (simp add: chart_of_def)
  show ?thesis using total empty log zero by blast
qed

theorem chart_of_total_witness:
  "chart_of [\<lparr>date = js ''2025-01-01'', wordCount = 0, change = 0\<rparr>,
             \<lparr>date = js ''2025-01-02'', wordCount = 0, change = 0\<rparr>]
   = Inr (chart_header @ js ''2025-01-01  0 words (0)'' @ [10]
          @ js ''2025-01-02  0 words (0)'' @ [10])"
  using chart_of_total [of "[\<lparr>date = js ''2025-01-01'', wordCount = 0, change = 0\<rparr>,
             \<lparr>date = js ''2025-01-02'', wordCount = 0, change = 0\<rparr>]"]
  by (simp add: change_text_def show_int_def digits_of.simps js_def)

section \<open>Properties of the repository operations\<close>


subsection \<open>Sequencing and counting\<close>

lemma await_Inr: "m r = (Inr x, r1) \<Longrightarrow> await m f r = f x r1"
  by (simp add: await_def)

lemma getWordCount_result:
  "getWordCount p r =
     (Inr (case map_of (worktree r) p of None \<Rightarrow> 0 | Some content \<Rightarrow> countWords content), r)"
  by (simp add: getWordCount_def split: option.splits)

lemma total_loop_result: "\<exists>n. total_loop files tot r = (Inr n, r)"
proof (induction files arbitrary: tot)
  case Nil
  then show ?case by (simp add: return_ok_def)
next
  case (Cons f fs)
  show ?case
  proof (cases "endsWith f (js ''.md'') \<or> endsWith f (js ''.txt'')
         \<or> endsWith f (js ''.fountain'')")
    case True
    then show ?thesis
      using Cons [of "tot + (case map_of (worktree r) f of None \<Rightarrow> 0 | Some content \<Rightarrow> countWords content)"]
      by (simp add: await_Inr [OF getWordCount_result])
  next
    case False
    then show ?thesis using Cons [of tot] by simp
  qed
qed

lemma getTotalWordCount_result: "\<exists>n. getTotalWordCount r = (Inr n, r)"
  using total_loop_result [of "status_files r" 0 r]
  by (simp add: getTotalWordCount_def await_def git_status_def)

lemma createDraftTag_addTag: "createDraftTag tagName msg r = git_addTag tagName r"
  using getTotalWordCount_result [of r] by (auto simp: createDraftTag_def await_def)

subsection \<open>Checking out and restoring\<close>

subsection \<open>Checking out and restoring\<close>




lemma resolve_ref_of_tag:
  assumes "tags r name = Some c"
  shows "\<exists>c' h. resolve_ref r name = Some (c', h)"
  using assms by (cases "branches r name") (simp_all add: resolve_ref_def)





lemma clean_no_conflict:
  assumes "\<And>p. map_of (index r) p = map_of (head_tree r) p"
    and "\<And>p. map_of (worktree r) p = map_of (head_tree r) p"
  shows "\<not> switch_conflict r target"
  using assms by (simp add: switch_conflict_def list_ex_iff)

lemma restore_completes:
  assumes "tags r tag = Some c" and "branches r (js ''restore-'' @ tag) = None"
    and "\<And>p. map_of (index r) p = map_of (head_tree r) p"
    and "\<And>p. map_of (worktree r) p = map_of (head_tree r) p"
  shows "\<exists>r'. restoreFromBackup tag r = (Inr (), r')"
proof -
  from resolve_ref_of_tag [OF assms(1)] obtain c' h where
    r: "resolve_ref r tag = Some (c', h)" by blast
  have nc: "\<not> switch_conflict r (c_tree c')" using assms(3,4) by (rule clean_no_conflict)
  show ?thesis
    using r nc assms(2)
    by (simp add: restoreFromBackup_def await_def git_checkout_def
        git_checkoutLocalBranch_def split: option.splits)
qed

subsection \<open>Committing\<close>

lemma split_on_absent: "sep \<notin> set s \<Longrightarrow> split_on sep s = [s]"
  by (induction s) auto

lemma rstrip_kept: "s \<noteq> [] \<Longrightarrow> \<not> git_space (last s) \<Longrightarrow> rstrip s = s"
  by (cases s rule: rev_cases) (simp_all add: rstrip_def)

lemma cleanup_plain:
  assumes "10 \<notin> set m" and "m \<noteq> []" and "\<not> git_space (last m)"
  shows "cleanup_message m = m"
  using assms by (simp add: cleanup_message_def split_on_absent rstrip_kept)

lemma git_commit_new:
  assumes "\<not> same_tree (index r) (head_tree r)" and "cleanup_message msg \<noteq> []"
    and "git_commit msg r = (x, r')"
  shows "\<exists>c. x = Inr (c_hash c) \<and> c_hash c \<noteq> [] \<and> c_message c = cleanup_message msg
               \<and> head_commit r' = Some c \<and> objects r' = objects r @ [c]
               \<and> tags r' = tags r"
  using assms digits_of_nonempty [of "length (objects r)"]
  by (cases "HEAD r") (auto simp: git_commit_def Let_def head_commit_def)



lemma words_fox: "countWords (js ''The quick brown fox jumps.'') = 5"
  by (simp add: countWords_def split_ws_def js_def is_space_def)

subsection \<open>Clean working trees\<close>

lemma clean_lookup:
  assumes "status_files r = []"
  shows "map_of (index r) p = map_of (head_tree r) p \<and> map_of (worktree r) p = map_of (index r) p"
proof (cases "p \<in> set (map fst (head_tree r) @ map fst (index r) @ map fst (worktree r))")
  case True
  then have "p \<in> set (remdups (map fst (head_tree r) @ map fst (index r) @ map fst (worktree r)))"
    by simp
  then show ?thesis using assms unfolding status_files_def filter_empty_conv by blast
next
  case False
  then have "map_of (head_tree r) p = None" "map_of (index r) p = None"
    "map_of (worktree r) p = None"
    by (auto simp: map_of_eq_None_iff image_iff)
  then show ?thesis by simp
qed

lemma clean_same_tree: "status_files r = [] \<Longrightarrow> same_tree (worktree r) (head_tree r)"
  using clean_lookup [of r] by (simp add: same_tree_def list_all_iff)

lemma head_commit_index [simp]: "head_commit (r\<lparr>index := t\<rparr>) = head_commit r"
  by (simp add: head_commit_def split: head_ref.splits)

lemma head_tree_index [simp]: "head_tree (r\<lparr>index := t\<rparr>) = head_tree r"
  by (simp add: head_tree_def)

lemma head_commit_tags [simp]: "head_commit (r\<lparr>tags := t\<rparr>) = head_commit r"
  by (simp add: head_commit_def split: head_ref.splits)

lemma head_tree_tags [simp]: "head_tree (r\<lparr>tags := t\<rparr>) = head_tree r"
  by (simp add: head_tree_def)

lemma clean_after_add_all:
  assumes "status_files r = []"
  shows "status_files (r\<lparr>index := worktree r\<rparr>) = []"
  using clean_lookup [OF assms] by (simp add: status_files_def filter_empty_conv)

lemma status_files_tags [simp]: "status_files (r\<lparr>tags := t\<rparr>) = status_files r"
  by (simp add: status_files_def)

lemma commitAll_clean:
  assumes "status_files r = []"
  shows "commitAll msg r = (Inr [], r\<lparr>index := worktree r\<rparr>)"
proof -
  obtain n where n: "getTotalWordCount r = (Inr n, r)"
    using getTotalWordCount_result by blast
  have s: "git_status r = (Inr [], r)" using assms by (simp add: git_status_def)
  have a: "git_add (js ''.'') r = (Inr (), r\<lparr>index := worktree r\<rparr>)"
    by (simp add: git_add_def)
  have c: "git_commit (enhancedMessage msg n) (r\<lparr>index := worktree r\<rparr>)
             = (Inr [], r\<lparr>index := worktree r\<rparr>)"
    using clean_same_tree [OF assms] by (simp add: git_commit_def)
  show ?thesis
    by (simp add: commitAll_def await_def s n a c return_ok_def)
qed

lemma backup_clean:
  assumes "status_files r = []"
  shows "backup d msg r =
           (case git_addTag (js ''backup-'' @ d) (r\<lparr>index := worktree r\<rparr>) of
              (Inl e, r1) \<Rightarrow> (Inl e, r1)
            | (Inr u, r1) \<Rightarrow> (Inr (js ''backup-'' @ d), r1))"
  by (simp add: backup_def Let_def await_def commitAll_clean [OF assms]
      createDraftTag_addTag return_ok_def split: prod.splits sum.splits)



section \<open>Chapter commits\<close>

text \<open>
  C1. commitChapter does not append the word count to an explicit message, and
  getHistory does not decode any count. The chapter of five words committed with the
  message \<open>First line\<close> is stored under \<open>First line\<close>, not under
  \<open>First line (5 words)\<close>. getHistory(1) asks the engine for the one-line format, so
  the handle returns one entry with the printed line as its \<open>hash\<close> and an empty
  \<open>message\<close>, and the record has no word count; this is so even for the commit made
  without a message, whose stored default message carries \<open>(5 words)\<close>.
\<close>

theorem commitChapter_message_without_count:
  "countWords (js ''The quick brown fox jumps.'') = 5
   \<and> map_option c_message
        (head_commit (snd (commitChapter (js ''chapters/01.md'') (Some (js ''First line''))
                             chapter_repo)))
      = Some (js ''First line'')
   \<and> js ''First line'' \<noteq> js ''First line (5 words)''
   \<and> fst (getHistory 1 (snd (commitChapter (js ''chapters/01.md'') (Some (js ''First line''))
                                chapter_repo)))
      = Inr [\<lparr>hash = js ''1 First line'', author = [], commit_date = [], message = [],
              commit_wordCount = None\<rparr>]
   \<and> map_option c_message
        (head_commit (snd (commitChapter (js ''chapters/01.md'') None chapter_repo)))
      = Some (js ''Update chapters/01.md (5 words)'')
   \<and> fst (getHistory 1 (snd (commitChapter (js ''chapters/01.md'') None chapter_repo)))
      = Inr [\<lparr>hash = js ''1 Update chapters/01.md (5 words)'', author = [],
              commit_date = [], message = [], commit_wordCount = None\<rparr>]"
proof -
  have a: "map_option c_message
        (head_commit (snd (commitChapter (js ''chapters/01.md'') (Some (js ''First line''))
                             chapter_repo)))
      = Some (js ''First line'')"
    by (simp add: chapter_repo_def fresh_repo_def initial_commit_def
        commitChapter_def await_def return_ok_def getWordCount_def
        git_add_def pathspec_matches_def starts_with_def git_commit_def same_tree_def
        head_tree_def head_commit_def message_or_def defaultMessage_def Let_def digits_of.simps
        cleanup_message_def rstrip_def git_space_def js_def)
  have b: "fst (getHistory 1 (snd (commitChapter (js ''chapters/01.md'') (Some (js ''First line''))
                                chapter_repo)))
      = Inr [\<lparr>hash = js ''1 First line'', author = [], commit_date = [], message = [],
              commit_wordCount = None\<rparr>]"
    by (simp add: chapter_repo_def fresh_repo_def initial_commit_def
        commitChapter_def await_def return_ok_def getWordCount_def
        git_add_def pathspec_matches_def starts_with_def git_commit_def same_tree_def
        head_tree_def head_commit_def message_or_def defaultMessage_def Let_def digits_of.simps
        cleanup_message_def rstrip_def git_space_def
        getHistory_def git_log_oneline_def oneline_text_def subject_of_def parse_log_def
        split_str_def trim_def build_line_def field_at_def START_BOUNDARY_def
        COMMIT_BOUNDARY_def SPLITTER_def is_space_def js_def)
  have c: "js ''First line'' \<noteq> js ''First line (5 words)''" by (simp add: js_def)
  have d: "map_option c_message
        (head_commit (snd (commitChapter (js ''chapters/01.md'') None chapter_repo)))
      = Some (js ''Update chapters/01.md (5 words)'')"
    by (simp add: chapter_repo_def fresh_repo_def initial_commit_def
        commitChapter_def await_def return_ok_def getWordCount_def
        git_add_def pathspec_matches_def starts_with_def git_commit_def same_tree_def
        head_tree_def head_commit_def message_or_def defaultMessage_def Let_def digits_of.simps
        cleanup_message_def rstrip_def git_space_def js_def countWords_def split_ws_def is_space_def)
  have e: "fst (getHistory 1 (snd (commitChapter (js ''chapters/01.md'') None chapter_repo)))
      = Inr [\<lparr>hash = js ''1 Update chapters/01.md (5 words)'', author = [],
              commit_date = [], message = [], commit_wordCount = None\<rparr>]"
    by (simp add: chapter_repo_def fresh_repo_def initial_commit_def
        commitChapter_def await_def return_ok_def getWordCount_def
        git_add_def pathspec_matches_def starts_with_def git_commit_def same_tree_def
        head_tree_def head_commit_def message_or_def defaultMessage_def Let_def digits_of.simps
        cleanup_message_def rstrip_def git_space_def
        getHistory_def git_log_oneline_def oneline_text_def subject_of_def parse_log_def
        split_str_def trim_def build_line_def field_at_def START_BOUNDARY_def
        COMMIT_BOUNDARY_def SPLITTER_def is_space_def js_def countWords_def split_ws_def)
  show ?thesis using words_fox a b c d e by simp
qed




section \<open>Backups\<close>

text \<open>
  C2, as amended. On a clean working tree whose head has a commit, backup creates no
  commit and tags the head with \<open>backup-<date>\<close>. A second call with no change in
  between, on the same date, fails with the engine's error for an existing tag and
  leaves the repository as the first call left it. On another date whose tag is free
  it succeeds with a second, distinct tag on the same commit. No call creates a commit.
\<close>

theorem backup_clean_tree:
  assumes "status_files r = []" and "head_commit r = Some c"
    and "tags r (js ''backup-'' @ d1) = None"
  shows "\<exists>r1. backup d1 m1 r = (Inr (js ''backup-'' @ d1), r1)
           \<and> objects r1 = objects r \<and> branches r1 = branches r
           \<and> tags r1 = (tags r)(js ''backup-'' @ d1 \<mapsto> c)
           \<and> backup d1 m2 r1 = (Inl (GitError (TagExists (js ''backup-'' @ d1))), r1)
           \<and> (d2 \<noteq> d1 \<and> tags r (js ''backup-'' @ d2) = None \<longrightarrow>
                (\<exists>r2. backup d2 m2 r1 = (Inr (js ''backup-'' @ d2), r2)
                   \<and> objects r2 = objects r
                   \<and> tags r2 = (tags r)(js ''backup-'' @ d1 \<mapsto> c, js ''backup-'' @ d2 \<mapsto> c)))"
proof -
  define r1 where "r1 = r\<lparr>index := worktree r, tags := (tags r)(js ''backup-'' @ d1 \<mapsto> c)\<rparr>"
  have first: "backup d1 m1 r = (Inr (js ''backup-'' @ d1), r1)"
    using assms by (simp add: backup_clean git_addTag_def r1_def)
  have clean1: "status_files r1 = []"
    using clean_after_add_all [OF assms(1)] by (simp add: r1_def)
  have same1: "r1\<lparr>index := worktree r1\<rparr> = r1" by (simp add: r1_def)
  have hc1: "head_commit r1 = Some c" using assms(2) by (simp add: r1_def)
  have again: "backup d1 m2 r1 = (Inl (GitError (TagExists (js ''backup-'' @ d1))), r1)"
    by (simp add: backup_clean [OF clean1] same1 git_addTag_def) (simp add: r1_def)
  have other: "\<exists>r2. backup d2 m2 r1 = (Inr (js ''backup-'' @ d2), r2)
                   \<and> objects r2 = objects r
                   \<and> tags r2 = (tags r)(js ''backup-'' @ d1 \<mapsto> c, js ''backup-'' @ d2 \<mapsto> c)"
    if "d2 \<noteq> d1" "tags r (js ''backup-'' @ d2) = None"
  proof -
    have "tags r1 (js ''backup-'' @ d2) = None" using that by (simp add: r1_def)
    then have "backup d2 m2 r1 =
        (Inr (js ''backup-'' @ d2), r1\<lparr>tags := (tags r1)(js ''backup-'' @ d2 \<mapsto> c)\<rparr>)"
      using hc1 by (simp add: backup_clean [OF clean1] same1 git_addTag_def)
    then show ?thesis by (simp add: r1_def)
  qed
  show ?thesis using first again other by (auto simp: r1_def)
qed

theorem backup_clean_tree_witness:
  "status_files fresh_repo = []
   \<and> fst (backup (js ''2025-01-02'') None fresh_repo) = Inr (js ''backup-2025-01-02'')
   \<and> fst (backup (js ''2025-01-03'') None (snd (backup (js ''2025-01-02'') None fresh_repo)))
       = Inr (js ''backup-2025-01-03'')
   \<and> objects (snd (backup (js ''2025-01-03'') None
                      (snd (backup (js ''2025-01-02'') None fresh_repo)))) = [initial_commit]
   \<and> tags (snd (backup (js ''2025-01-03'') None
                      (snd (backup (js ''2025-01-02'') None fresh_repo))))
       = [js ''backup-2025-01-02'' \<mapsto> initial_commit, js ''backup-2025-01-03'' \<mapsto> initial_commit]"
proof -
  have clean: "status_files fresh_repo = []"
    by (simp add: fresh_repo_def initial_commit_def status_files_def head_tree_def head_commit_def js_def)
  have hc: "head_commit fresh_repo = Some initial_commit"
    by (simp add: fresh_repo_def initial_commit_def head_commit_def)
  have nt: "tags fresh_repo (js ''backup-'' @ js ''2025-01-02'') = None"
    by (simp add: fresh_repo_def initial_commit_def)
  have nt2: "tags fresh_repo (js ''backup-'' @ js ''2025-01-03'') = None"
    by (simp add: fresh_repo_def initial_commit_def)
  have ne: "js ''2025-01-03'' \<noteq> js ''2025-01-02''" by (simp add: js_def)
  have o: "objects fresh_repo = [initial_commit]" "tags fresh_repo = Map.empty"
    by (simp_all add: fresh_repo_def initial_commit_def)
  have j: "js ''backup-'' @ js ''2025-01-02'' = js ''backup-2025-01-02''"
    "js ''backup-'' @ js ''2025-01-03'' = js ''backup-2025-01-03''"
    by (simp_all add: js_def)
  from backup_clean_tree [OF clean hc nt, of None None "js ''2025-01-03''"] ne nt2
  obtain r1 r2 where
    "backup (js ''2025-01-02'') None fresh_repo = (Inr (js ''backup-'' @ js ''2025-01-02''), r1)"
    "backup (js ''2025-01-03'') None r1 = (Inr (js ''backup-'' @ js ''2025-01-03''), r2)"
    "objects r2 = objects fresh_repo"
    "tags r2 = (tags fresh_repo)(js ''backup-'' @ js ''2025-01-02'' \<mapsto> initial_commit,
                                 js ''backup-'' @ js ''2025-01-03'' \<mapsto> initial_commit)"
    by blast
  then show ?thesis using clean o j by simp
qed

text \<open>
  C2 as stated fails: two calls in succession on the same date do not both succeed;
  the second one finds the tag of the first.
\<close>

theorem backup_twice_same_day_counterexample:
  "status_files fresh_repo = []
   \<and> fst (backup (js ''2025-01-02'') None fresh_repo) = Inr (js ''backup-2025-01-02'')
   \<and> fst (backup (js ''2025-01-02'') None (snd (backup (js ''2025-01-02'') None fresh_repo)))
       = Inl (GitError (TagExists (js ''backup-2025-01-02'')))"
proof -
  have clean: "status_files fresh_repo = []"
    by (simp add: fresh_repo_def initial_commit_def status_files_def head_tree_def head_commit_def js_def)
  have hc: "head_commit fresh_repo = Some initial_commit"
    by (simp add: fresh_repo_def initial_commit_def head_commit_def)
  have nt: "tags fresh_repo (js ''backup-'' @ js ''2025-01-02'') = None"
    by (simp add: fresh_repo_def initial_commit_def)
  have first: "backup (js ''2025-01-02'') None fresh_repo =
      (Inr (js ''backup-2025-01-02''),
       fresh_repo\<lparr>index := worktree fresh_repo,
                    tags := (tags fresh_repo)(js ''backup-2025-01-02'' \<mapsto> initial_commit)\<rparr>)"
    using hc nt by (subst backup_clean [OF clean]) (simp add: git_addTag_def js_def)
  have clean1: "status_files (fresh_repo\<lparr>index := worktree fresh_repo,
                    tags := (tags fresh_repo)(js ''backup-2025-01-02'' \<mapsto> initial_commit)\<rparr>) = []"
    using clean_after_add_all [OF clean] by simp
  have second: "fst (backup (js ''2025-01-02'') None (fresh_repo\<lparr>index := worktree fresh_repo,
                    tags := (tags fresh_repo)(js ''backup-2025-01-02'' \<mapsto> initial_commit)\<rparr>))
       = Inl (GitError (TagExists (js ''backup-2025-01-02'')))"
    by (subst backup_clean [OF clean1]) (simp add: git_addTag_def js_def)
  show ?thesis using clean first second by simp
qed

text \<open>
  C4. The count that backup encodes is taken over the files that status reports, the
  changed ones, not over every writing file of the project. In a project with a
  committed, unchanged chapter of five words and a new chapter of three,
  getTotalWordCount is three, the commit message carries \<open>(3 total words)\<close>, and
  the writing files of the project hold eight words.
\<close>

theorem backup_counts_changed_files_only:
  "fst (getTotalWordCount draft_repo) = Inr 3
   \<and> map_option c_message (head_commit (snd (backup (js ''2025-01-03'') None draft_repo)))
       = Some (js ''Backup: 2025-01-03 (3 total words)'')
   \<and> project_words_spec draft_repo = 8"
proof -
  have a: "status_files draft_repo = [js ''chapters/02.md'']"
    by (simp add: draft_repo_def committed_repo_def chapter_commit_def initial_commit_def status_files_def head_tree_def head_commit_def js_def)
  have b: "fst (getTotalWordCount draft_repo) = Inr 3"
    by (simp add: getTotalWordCount_def await_def git_status_def a)
       (simp add: draft_repo_def committed_repo_def chapter_commit_def initial_commit_def getWordCount_def await_def return_ok_def endsWith_def
          countWords_def split_ws_def js_def is_space_def)
  have d: "map_option c_message (head_commit (snd (backup (js ''2025-01-03'') None draft_repo)))
       = Some (js ''Backup: 2025-01-03 (3 total words)'')"
    by (simp add: draft_repo_def committed_repo_def chapter_commit_def initial_commit_def
        backup_def commitAll_def createDraftTag_def getTotalWordCount_def
        git_status_def status_files_def git_addTag_def git_add_def git_commit_def same_tree_def
        head_tree_def head_commit_def await_def return_ok_def getWordCount_def message_or_def
        enhancedMessage_def Let_def digits_of.simps js_def endsWith_def countWords_def
        split_ws_def is_space_def cleanup_message_def rstrip_def git_space_def)
  have e: "project_words_spec draft_repo = 8"
    by (simp add: draft_repo_def committed_repo_def chapter_commit_def initial_commit_def project_words_spec_def is_writing_file_def endsWith_def
        countWords_def split_ws_def js_def is_space_def)
  show ?thesis using b d e by simp
qed

section \<open>Restoring\<close>




text \<open>
  C6. restoreFromBackup does not fail for every name that is no tag, branch or commit.
  It hands the name to checkout, and checkout takes a name that resolves to nothing as
  a path: for the path of a staged file, or of a directory with staged files, the call
  succeeds and the branch \<open>restore-<name>\<close>, which did not exist, is created at the
  current commit.
\<close>

theorem restoreFromBackup_accepts_path_name:
  "resolve_ref committed_repo (js ''chapters/01.md'') = None
   \<and> fst (restoreFromBackup (js ''chapters/01.md'') committed_repo) = Inr ()
   \<and> branches committed_repo (js ''restore-chapters/01.md'') = None
   \<and> branches (snd (restoreFromBackup (js ''chapters/01.md'') committed_repo))
         (js ''restore-chapters/01.md'') = Some chapter_commit
   \<and> resolve_ref committed_repo (js ''chapters'') = None
   \<and> fst (restoreFromBackup (js ''chapters'') committed_repo) = Inr ()
   \<and> branches (snd (restoreFromBackup (js ''chapters'') committed_repo))
         (js ''restore-chapters'') = Some chapter_commit"
proof -
  have a: "resolve_ref committed_repo (js ''chapters/01.md'') = None"
    by (simp add: committed_repo_def chapter_commit_def initial_commit_def resolve_ref_def js_def)
  have b: "fst (restoreFromBackup (js ''chapters/01.md'') committed_repo) = Inr ()"
    by (simp add: committed_repo_def chapter_commit_def initial_commit_def
        restoreFromBackup_def await_def git_checkout_def resolve_ref_def
        pathspec_matches_def starts_with_def head_commit_def git_checkoutLocalBranch_def js_def)
  have c: "branches committed_repo (js ''restore-chapters/01.md'') = None"
    by (simp add: committed_repo_def chapter_commit_def initial_commit_def js_def)
  have d: "branches (snd (restoreFromBackup (js ''chapters/01.md'') committed_repo))
         (js ''restore-chapters/01.md'') = Some chapter_commit"
    by (simp add: committed_repo_def chapter_commit_def initial_commit_def
        restoreFromBackup_def await_def git_checkout_def resolve_ref_def
        pathspec_matches_def starts_with_def head_commit_def git_checkoutLocalBranch_def js_def)
  have e: "resolve_ref committed_repo (js ''chapters'') = None"
    by (simp add: committed_repo_def chapter_commit_def initial_commit_def resolve_ref_def js_def)
  have f: "fst (restoreFromBackup (js ''chapters'') committed_repo) = Inr ()"
    by (simp add: committed_repo_def chapter_commit_def initial_commit_def
        restoreFromBackup_def await_def git_checkout_def resolve_ref_def
        pathspec_matches_def starts_with_def head_commit_def git_checkoutLocalBranch_def js_def)
  have g: "branches (snd (restoreFromBackup (js ''chapters'') committed_repo))
         (js ''restore-chapters'') = Some chapter_commit"
    by (simp add: committed_repo_def chapter_commit_def initial_commit_def
        restoreFromBackup_def await_def git_checkout_def resolve_ref_def
        pathspec_matches_def starts_with_def head_commit_def git_checkoutLocalBranch_def js_def)
  show ?thesis using a b c d e f g by simp
qed

end
